theory Spec2Isabelle
  imports Complex_Main
begin

section \<open>Python strings\<close>

text \<open>
  A Python \<open>str\<close> is a sequence of Unicode code points.  It is modelled as a list of
  natural numbers, one per code point, so that \<open>str.strip\<close> sees the same characters
  as the interpreter does.  \<open>ustr\<close> embeds an ASCII literal.
\<close>

type_synonym pystr = "nat list"

definition ustr :: "string \<Rightarrow> pystr" where
  "ustr s = map of_char s"

text \<open>
  \<open>str.isspace\<close> on one code point: the table of CPython's \<open>_PyUnicode_IsWhitespace\<close>
  (U+0009..U+000D, U+001C..U+0020, U+0085, U+00A0, U+1680, U+2000..U+200A, U+2028,
  U+2029, U+202F, U+205F, U+3000).
\<close>

definition isspace :: "nat \<Rightarrow> bool" where
  "isspace c \<longleftrightarrow>
     (9 \<le> c \<and> c \<le> 13) \<or> (28 \<le> c \<and> c \<le> 32) \<or> c = 133 \<or> c = 160 \<or> c = 5760 \<or>
     (8192 \<le> c \<and> c \<le> 8202) \<or> c = 8232 \<or> c = 8233 \<or> c = 8239 \<or> c = 8287 \<or>
     c = 12288"

definition lstrip :: "pystr \<Rightarrow> pystr" where
  "lstrip s = dropWhile isspace s"

definition rstrip :: "pystr \<Rightarrow> pystr" where
  "rstrip s = rev (dropWhile isspace (rev s))"

text \<open>\<open>str.strip()\<close> with no argument removes leading and trailing whitespace.\<close>

definition strip :: "pystr \<Rightarrow> pystr" where
  "strip s = rstrip (lstrip s)"

text \<open>
  \<open>str.lower()\<close>.  Only the ASCII letters are mapped here; the one use in the program
  compares the result with \<open>"yes"\<close>.
\<close>

definition lower_char :: "nat \<Rightarrow> nat" where
  "lower_char c = (if 65 \<le> c \<and> c \<le> 90 then c + 32 else c)"

definition lower :: "pystr \<Rightarrow> pystr" where
  "lower s = map lower_char s"

section \<open>Utilities\<close>

subsection \<open>\<open>sanitize_filename\<close>\<close>

text \<open>
  \<^verbatim>\<open>re.sub(r'[<>:"/\\|?*\n\r\t]', '_', name).strip()\<close>

  The pattern is one character class; its members, as code points, are
  \<open><\<close> 60, \<open>>\<close> 62, \<open>:\<close> 58, the double quote 34, \<open>/\<close> 47, the backslash 92, \<open>|\<close> 124,
  \<open>?\<close> 63, \<open>*\<close> 42, newline 10, carriage return 13 and tab 9.
\<close>

definition unsafe_chars :: "nat list" where
  "unsafe_chars = [60, 62, 58, 34, 47, 92, 124, 63, 42, 10, 13, 9]"

text \<open>
  \<open>re.sub\<close> for a pattern that is a single character class: scanning from the left,
  every character of the class is a match and is replaced by \<open>repl\<close>.
\<close>

fun re_sub_class :: "nat list \<Rightarrow> pystr \<Rightarrow> pystr \<Rightarrow> pystr" where
  "re_sub_class cls repl [] = []"
| "re_sub_class cls repl (c # cs) =
     (if c \<in> set cls then repl @ re_sub_class cls repl cs
      else c # re_sub_class cls repl cs)"

definition sanitize_filename :: "pystr \<Rightarrow> pystr" where
  "sanitize_filename name = strip (re_sub_class unsafe_chars (ustr ''_'') name)"

section \<open>Exceptions, the environment and the run state\<close>

text \<open>
  An exception is its class and its message (\<open>str(e)\<close>).  The classes are the ones
  the program names or raises; \<open>OtherException\<close> stands for every other subclass of
  \<open>Exception\<close>.  \<open>KeyboardInterrupt\<close> and \<open>SystemExit\<close> derive from \<open>BaseException\<close>
  only, so an \<open>except Exception\<close> clause does not catch them.
\<close>

datatype exc_class =
    KeyboardInterrupt
  | SystemExit int
  | FileNotFoundError
  | EOFError
  | ValueError
  | RuntimeError
  | TwoFactorAuthRequiredException
  | LoginException
  | ConnectionException
  | ProfileNotExistsException
  | QueryReturnedNotFoundException
  | OtherException

datatype exn = Exc exc_class pystr

fun class_of :: "exn \<Rightarrow> exc_class" where
  "class_of (Exc c m) = c"

fun str_of :: "exn \<Rightarrow> pystr" where
  "str_of (Exc c m) = m"

text \<open>\<open>isinstance(e, Exception)\<close>.\<close>

fun is_Exception :: "exn \<Rightarrow> bool" where
  "is_Exception (Exc KeyboardInterrupt m) = False"
| "is_Exception (Exc (SystemExit n) m) = False"
| "is_Exception (Exc c m) = True"

text \<open>
  \<open>isinstance\<close> for the two classes of the Instaloader library that have subclasses
  among the ones above: in that library \<open>QueryReturnedNotFoundException\<close> derives from
  \<open>ConnectionException\<close> and \<open>TwoFactorAuthRequiredException\<close> from \<open>LoginException\<close>.
\<close>

definition is_ConnectionException :: "exn \<Rightarrow> bool" where
  "is_ConnectionException e \<longleftrightarrow>
     class_of e = ConnectionException \<or> class_of e = QueryReturnedNotFoundException"

definition is_LoginException :: "exn \<Rightarrow> bool" where
  "is_LoginException e \<longleftrightarrow>
     class_of e = LoginException \<or> class_of e = TwoFactorAuthRequiredException"

text \<open>A post is opaque to the program; it is identified by a number.\<close>

type_synonym post = nat

text \<open>
  What the program uses of a resolved \<open>Profile\<close>: the handle, the private flag (a
  property, whose evaluation may raise) and the lazy post collection.  The iterator of
  \<open>get_posts()\<close> is the list of what each \<open>next\<close> gives: a post, or an exception
  raised while fetching; the end of the list is the end of the iteration.
\<close>

record profile =
  username :: pystr
  is_private :: "exn + bool"
  get_posts :: "(exn + post) list"

text \<open>
  The environment answers every call the program makes outside itself.  A call that
  is made once has one answer; \<open>input\<close>, \<open>download_post\<close>, \<open>random.random\<close> and
  \<open>time.sleep\<close> are answered by the number of the call (from 0).  \<open>None\<close> is a call
  that returns normally without a value.  A user interrupt is delivered by the blocking
  call during which it arrives.
\<close>

record env =
  gethostbyname :: "exn option"
  stdin :: "nat \<Rightarrow> exn + pystr"
  getpass :: "exn + pystr"
  load_session_from_file :: "pystr \<Rightarrow> exn option"
  login :: "pystr \<Rightarrow> pystr \<Rightarrow> exn option"
  two_factor_login :: "pystr \<Rightarrow> exn option"
  save_session_to_file :: "exn option"
  from_username :: "pystr \<Rightarrow> exn + profile"
  test_login :: "exn + bool"
  makedirs :: "pystr \<Rightarrow> exn option"
  download_post :: "nat \<Rightarrow> exn option"
  random :: "nat \<Rightarrow> real"
  sleep_interrupted :: "nat \<Rightarrow> bool"

text \<open>What the program does to the outside, in order.\<close>

datatype event =
    Print pystr
  | Input pystr
  | Getpass pystr
  | Sleep real
  | GetHostByName
  | LoadSession pystr
  | Login pystr pystr
  | TwoFactorLogin pystr
  | SaveSession
  | FromUsername pystr
  | TestLogin
  | Makedirs pystr
  | DownloadPost post pystr

record state =
  n_input :: nat
  n_download :: nat
  n_random :: nat
  n_sleep :: nat
  trace :: "event list"

definition init_state :: state where
  "init_state = \<lparr>n_input = 0, n_download = 0, n_random = 0, n_sleep = 0, trace = []\<rparr>"

definition emit :: "event \<Rightarrow> state \<Rightarrow> state" where
  "emit ev s = s\<lparr>trace := trace s @ [ev]\<rparr>"

text \<open>
  Floating-point numbers are idealised as reals: rounding and overflow are outside the
  model.  \<open>random.uniform(a, b)\<close> is \<open>a + (b - a) * random()\<close>, as in the standard
  library, with \<open>random()\<close> in \<open>[0, 1)\<close>.
\<close>

definition random_uniform :: "env \<Rightarrow> real \<Rightarrow> real \<Rightarrow> state \<Rightarrow> real \<times> state" where
  "random_uniform E a b s =
     (a + (b - a) * random E (n_random s), s\<lparr>n_random := Suc (n_random s)\<rparr>)"

text \<open>
  \<open>time.sleep(d)\<close> raises \<open>ValueError\<close> for a negative length; otherwise it sleeps,
  and raises \<open>KeyboardInterrupt\<close> when the user interrupts it.
\<close>

definition time_sleep :: "env \<Rightarrow> real \<Rightarrow> state \<Rightarrow> (exn + unit) \<times> state" where
  "time_sleep E d s =
     (if d < 0 then (Inl (Exc ValueError (ustr ''sleep length must be non-negative'')), s)
      else
        let s' = (emit (Sleep d) s)\<lparr>n_sleep := Suc (n_sleep s)\<rparr>
        in if sleep_interrupted E (n_sleep s) then (Inl (Exc KeyboardInterrupt []), s')
           else (Inr (), s'))"

definition py_input :: "env \<Rightarrow> pystr \<Rightarrow> state \<Rightarrow> (exn + pystr) \<times> state" where
  "py_input E prompt s =
     (stdin E (n_input s), (emit (Input prompt) s)\<lparr>n_input := Suc (n_input s)\<rparr>)"

section \<open>Downloading with delays and retries\<close>

text \<open>
  How the retry loop of one post ends: \<open>Continue tot\<close> when the loop is left (by
  \<open>break\<close> after a success, or because the attempts are used up), \<open>Return tot\<close> when
  the function returns from inside it.  The counter \<open>tot\<close> is the \<open>total\<close> of the
  source.
\<close>

datatype flow = Continue nat | Return nat

text \<open>
  Lines 117 to 141, the \<open>while attempt <= per_post_retries\<close> loop of one post.  The two
  handlers for \<open>ConnectionException\<close> and for \<open>Exception\<close> differ in the text they print
  only.  The sleep of a handler is outside the \<open>try\<close>: what it raises leaves the
  function.  The progress lines the downloader prints (they format the waits) are not
  recorded.
\<close>

function retry_loop ::
  "env \<Rightarrow> pystr \<Rightarrow> int \<Rightarrow> real \<Rightarrow> post \<Rightarrow> nat \<Rightarrow> nat \<Rightarrow> state \<Rightarrow> (exn + flow) \<times> state" where
  "retry_loop E safe_name per_post_retries backoff_base p attempt tot s =
     (if int attempt \<le> per_post_retries then
        (let s1 = (emit (DownloadPost p safe_name) s)\<lparr>n_download := Suc (n_download s)\<rparr>
         in case download_post E (n_download s) of
              None \<Rightarrow> (Inr (Continue (tot + 1)), s1)
            | Some e \<Rightarrow>
                if class_of e = KeyboardInterrupt then (Inr (Return tot), s1)
                else if is_ConnectionException e \<or> is_Exception e then
                  (let attempt' = attempt + 1;
                       (jitter, s2) = random_uniform E 0.5 2.0 s1;
                       wait = backoff_base ^ attempt' + jitter
                   in case time_sleep E wait s2 of
                        (Inl e', s3) \<Rightarrow> (Inl e', s3)
                      | (Inr u, s3) \<Rightarrow>
                          retry_loop E safe_name per_post_retries backoff_base p attempt' tot s3)
                else (Inl e, s1))
      else (Inr (Continue tot), s))"
  by pat_completeness auto
termination
  by (relation "measure (\<lambda>(E, sn, R, b, p, attempt, tot, s). nat (R + 1 - int attempt))") auto

declare retry_loop.simps [simp del]

text \<open>Lines 143 to 148: the pause after the retry loop of a post.\<close>

definition pacing_sleep :: "env \<Rightarrow> real \<Rightarrow> real \<Rightarrow> state \<Rightarrow> (exn + unit) \<times> state" where
  "pacing_sleep E min_delay max_delay s =
     (let (sleep_time, s1) = random_uniform E min_delay max_delay s;
          (extra, s2) = random_uniform E 0.0 1.2 s1
      in time_sleep E (sleep_time + extra) s2)"

text \<open>Lines 116 to 151: the \<open>for post in posts_iter\<close> loop and the final return.\<close>

fun posts_loop ::
  "env \<Rightarrow> pystr \<Rightarrow> real \<Rightarrow> real \<Rightarrow> int \<Rightarrow> real \<Rightarrow> (exn + post) list \<Rightarrow> nat \<Rightarrow> state
     \<Rightarrow> (exn + nat) \<times> state" where
  "posts_loop E safe_name min_delay max_delay per_post_retries backoff_base [] tot s =
     (Inr tot, s)"
| "posts_loop E safe_name min_delay max_delay per_post_retries backoff_base (Inl e # rest) tot s =
     (Inl e, s)"
| "posts_loop E safe_name min_delay max_delay per_post_retries backoff_base (Inr p # rest) tot s =
     (case retry_loop E safe_name per_post_retries backoff_base p 0 tot s of
        (Inl e, s1) \<Rightarrow> (Inl e, s1)
      | (Inr (Return t), s1) \<Rightarrow> (Inr t, s1)
      | (Inr (Continue t), s1) \<Rightarrow>
          (case pacing_sleep E min_delay max_delay s1 of
             (Inl e, s2) \<Rightarrow> (Inl e, s2)
           | (Inr u, s2) \<Rightarrow>
               posts_loop E safe_name min_delay max_delay per_post_retries backoff_base rest t s2))"

definition download_posts_with_delays ::
  "env \<Rightarrow> profile \<Rightarrow> real \<Rightarrow> real \<Rightarrow> int \<Rightarrow> real \<Rightarrow> state \<Rightarrow> (exn + nat) \<times> state" where
  "download_posts_with_delays E prof min_delay max_delay per_post_retries backoff_base s =
     (let safe_name = sanitize_filename (username prof);
          s1 = emit (Makedirs safe_name) s
      in case makedirs E safe_name of
           Some e \<Rightarrow> (Inl e, s1)
         | None \<Rightarrow>
             posts_loop E safe_name min_delay max_delay per_post_retries backoff_base
               (get_posts prof) 0 s1)"

section \<open>Network check and credentials\<close>

text \<open>
  Lines 30 to 38.  \<open>check_dns\<close> catches every \<open>Exception\<close> of the lookup, prints it
  and answers \<open>False\<close>.  The non-ASCII characters of the messages are given by their
  code points (10060 is the cross mark, 9989 the check mark, 9888 and 65039 the warning
  sign, 9940 the no-entry sign).
\<close>

definition check_dns :: "env \<Rightarrow> state \<Rightarrow> (exn + bool) \<times> state" where
  "check_dns E s =
     (let s1 = emit GetHostByName s
      in case gethostbyname E of
           None \<Rightarrow> (Inr True, s1)
         | Some e \<Rightarrow>
             if is_Exception e then
               (Inr False, emit (Print ([10060] @ ustr '' DNS/Network check failed: '' @ str_of e)) s1)
             else (Inl e, s1))"

text \<open>Lines 40 to 47.\<close>

definition get_credentials :: "env \<Rightarrow> state \<Rightarrow> (exn + pystr \<times> pystr) \<times> state" where
  "get_credentials E s =
     (case py_input E (ustr ''Enter your Instagram username: '') s of
        (Inl e, s1) \<Rightarrow> (Inl e, s1)
      | (Inr line, s1) \<Rightarrow>
          (let s2 = emit (Getpass (ustr ''Enter your Instagram password: '')) s1
           in case getpass E of
                Inr pw \<Rightarrow> (Inr (strip line, strip pw), s2)
              | Inl e \<Rightarrow>
                  if is_Exception e then
                    (case py_input E (ustr ''Enter your Instagram password (visible): '') s2 of
                       (Inl e', s3) \<Rightarrow> (Inl e', s3)
                     | (Inr pw, s3) \<Rightarrow> (Inr (strip line, strip pw), s3))
                  else (Inl e, s2)))"

section \<open>Login and session\<close>

text \<open>
  Lines 55 to 61: with a username that is not empty, try the session file.  The result
  is \<open>Some username\<close> when the function returns it, \<open>None\<close> when control falls through
  (no username, or \<open>FileNotFoundError\<close>); any other exception of the load is raised.
\<close>

definition try_load_session ::
  "env \<Rightarrow> pystr option \<Rightarrow> state \<Rightarrow> (exn + pystr option) \<times> state" where
  "try_load_session E user s =
     (case user of
        None \<Rightarrow> (Inr None, s)
      | Some u \<Rightarrow>
          if u = [] then (Inr None, s)
          else
            (let s1 = emit (LoadSession u) s
             in case load_session_from_file E u of
                  None \<Rightarrow> (Inr (Some u), emit (Print ([9989] @ ustr '' Loaded session from file.'')) s1)
                | Some e \<Rightarrow>
                    if class_of e = FileNotFoundError then
                      (Inr None,
                       emit (Print ([9888, 65039] @ ustr '' Session file not found for user:''
                                     @ ustr '' '' @ u)) s1)
                    else (Inl e, s1)))"

text \<open>
  Lines 84 to 94, the two-factor path after the code has been read.  A failure to save
  the session is ignored; every \<open>Exception\<close> of \<open>two_factor_login\<close> becomes a
  \<open>RuntimeError\<close>.
\<close>

definition two_factor_path :: "env \<Rightarrow> pystr \<Rightarrow> pystr \<Rightarrow> state \<Rightarrow> (exn + pystr) \<times> state" where
  "two_factor_path E user code s =
     (let s1 = emit (TwoFactorLogin code) s
      in case two_factor_login E code of
           Some e \<Rightarrow>
             if is_Exception e then
               (Inl (Exc RuntimeError (ustr ''2FA login failed: '' @ str_of e)), s1)
             else (Inl e, s1)
         | None \<Rightarrow>
             (let s2 = emit SaveSession s1;
                  s3 = emit (Print ([9989] @ ustr '' 2FA login successful and session saved.'')) s2
              in case save_session_to_file E of
                   None \<Rightarrow> (Inr user, s3)
                 | Some e \<Rightarrow> if is_Exception e then (Inr user, s3) else (Inl e, s2)))"

text \<open>
  Lines 66 to 98, the interactive login: credentials, a pause of 1.5 to 4.0 seconds,
  the login, and the handlers of the \<open>try\<close> in their order.
\<close>

definition interactive_login :: "env \<Rightarrow> state \<Rightarrow> (exn + pystr) \<times> state" where
  "interactive_login E s =
     (case get_credentials E s of
        (Inl e, s1) \<Rightarrow> (Inl e, s1)
      | (Inr (user, passwd), s1) \<Rightarrow>
          (let (d, s2) = random_uniform E 1.5 4.0 s1
           in case time_sleep E d s2 of
                (Inl e, s3) \<Rightarrow> (Inl e, s3)
              | (Inr u, s3) \<Rightarrow>
                  (let s4 = emit (Login user passwd) (emit (Print (ustr ''Attempting login...'')) s3)
                   in case login E user passwd of
                        None \<Rightarrow>
                          (let s5 = emit SaveSession s4
                           in case save_session_to_file E of
                                None \<Rightarrow>
                                  (Inr user,
                                   emit (Print ([9989] @ ustr '' Login successful and session saved.'')) s5)
                              | Some e \<Rightarrow>
                                  if is_Exception e then
                                    (Inr user,
                                     emit (Print ([9888, 65039]
                                       @ ustr '' Login successful but could not save session file.'')) s5)
                                  else (Inl e, s5))
                      | Some e \<Rightarrow>
                          if class_of e = TwoFactorAuthRequiredException then
                            (let s5 = emit (Print ([9888, 65039]
                                        @ ustr '' Two-factor authentication required.'')) s4
                             in case py_input E (ustr ''Enter 2FA code (from your authenticator/SMS): '') s5 of
                                  (Inl e', s6) \<Rightarrow> (Inl e', s6)
                                | (Inr line, s6) \<Rightarrow> two_factor_path E user (strip line) s6)
                          else if is_LoginException e then
                            (Inl (Exc RuntimeError (ustr ''Login failed: '' @ str_of e)), s4)
                          else if is_ConnectionException e then
                            (Inl (Exc RuntimeError (ustr ''Connection error during login: '' @ str_of e)), s4)
                          else (Inl e, s4))))"

text \<open>Lines 50 to 98.\<close>

definition login_with_session ::
  "env \<Rightarrow> pystr option \<Rightarrow> bool \<Rightarrow> state \<Rightarrow> (exn + pystr) \<times> state" where
  "login_with_session E user allow_interactive s =
     (case try_load_session E user s of
        (Inl e, s1) \<Rightarrow> (Inl e, s1)
      | (Inr (Some u), s1) \<Rightarrow> (Inr u, s1)
      | (Inr None, s1) \<Rightarrow>
          if \<not> allow_interactive then
            (Inl (Exc RuntimeError (ustr ''No session available and interactive login disabled.'')), s1)
          else interactive_login E s1)"

section \<open>The main program\<close>

text \<open>\<open>sys.exit(1)\<close> raises \<open>SystemExit\<close> with code 1.\<close>

definition sys_exit :: "int \<Rightarrow> exn" where
  "sys_exit n = Exc (SystemExit n) []"

text \<open>
  Lines 173 to 183: the login, and the question asked after a \<open>RuntimeError\<close>.  The
  result is the user of the session, \<open>None\<close> when the run goes on without login.
\<close>

definition main_login :: "env \<Rightarrow> pystr option \<Rightarrow> state \<Rightarrow> (exn + pystr option) \<times> state" where
  "main_login E session_user s =
     (case login_with_session E session_user True s of
        (Inr used_user, s1) \<Rightarrow> (Inr (Some used_user), s1)
      | (Inl e, s1) \<Rightarrow>
          if class_of e = RuntimeError then
            (let s2 = emit (Print ([10060] @ ustr '' Login/session error: '' @ str_of e)) s1
             in case py_input E (ustr ''Continue without login? (yes/no): '') s2 of
                  (Inl e', s3) \<Rightarrow> (Inl e', s3)
                | (Inr proceed, s3) \<Rightarrow>
                    if lower (strip proceed) \<noteq> ustr ''yes'' then (Inl (sys_exit 1), s3)
                    else (Inr None, s3))
          else (Inl e, s1))"

text \<open>
  Lines 185 to 201: a pause of 1.0 to 3.0 seconds, then the profile lookup with its
  four handlers in their order.  39 is the apostrophe.
\<close>

definition main_resolve :: "env \<Rightarrow> pystr \<Rightarrow> state \<Rightarrow> (exn + profile) \<times> state" where
  "main_resolve E target_profile s =
     (let (d, s1) = random_uniform E 1.0 3.0 s
      in case time_sleep E d s1 of
           (Inl e, s2) \<Rightarrow> (Inl e, s2)
         | (Inr u, s2) \<Rightarrow>
             (let s3 = emit (FromUsername target_profile) s2
              in case from_username E target_profile of
                   Inr prof \<Rightarrow> (Inr prof, s3)
                 | Inl e \<Rightarrow>
                     if class_of e = ProfileNotExistsException then
                       (Inl (sys_exit 1),
                        emit (Print ([10060] @ ustr '' The profile '' @ [39] @ target_profile @ [39]
                                      @ ustr '' does not exist.'')) s3)
                     else if class_of e = QueryReturnedNotFoundException then
                       (Inl (sys_exit 1),
                        emit (Print ([10060] @ ustr '' Query returned not found. Instagram may have changed the API or blocked the request.'')) s3)
                     else if is_ConnectionException e then
                       (Inl (sys_exit 1),
                        emit (Print ([10060] @ ustr '' Connection error when fetching profile: ''
                                      @ str_of e)) s3)
                     else if is_Exception e then
                       (Inl (sys_exit 1),
                        emit (Print ([10060] @ ustr '' Unexpected error when fetching profile: ''
                                      @ str_of e)) s3)
                     else (Inl e, s3)))"

text \<open>
  Lines 203 to 212: the check of a private profile.  Every \<open>Exception\<close> raised inside
  the \<open>try\<close> is ignored; the \<open>SystemExit\<close> of \<open>sys.exit(1)\<close> is not an \<open>Exception\<close> and
  leaves the \<open>try\<close>.  \<open>test_login()\<close> is used for its truth value.
\<close>

definition main_private_check ::
  "env \<Rightarrow> pystr \<Rightarrow> profile \<Rightarrow> state \<Rightarrow> (exn + unit) \<times> state" where
  "main_private_check E target_profile prof s =
     (case is_private prof of
        Inl e \<Rightarrow> if is_Exception e then (Inr (), s) else (Inl e, s)
      | Inr private \<Rightarrow>
          if private then
            (let s1 = emit TestLogin s
             in case test_login E of
                  Inl e \<Rightarrow> if is_Exception e then (Inr (), s1) else (Inl e, s1)
                | Inr valid \<Rightarrow>
                    if \<not> valid then
                      (Inl (sys_exit 1),
                       emit (Print ([10060] @ ustr '' The profile '' @ [39] @ target_profile @ [39]
                          @ ustr '' is private. You must be logged in and follow them.'')) s1)
                    else (Inr (), s1))
          else (Inr (), s))"

text \<open>
  Lines 214 to 231: the download with the delays 4.0 and 9.0, 3 retries and base 2.0;
  an interrupt and every \<open>Exception\<close> are printed and the function returns.
\<close>

definition main_download :: "env \<Rightarrow> profile \<Rightarrow> state \<Rightarrow> (exn + unit) \<times> state" where
  "main_download E prof s =
     (case download_posts_with_delays E prof 4.0 9.0 3 2.0 s of
        (Inr n, s1) \<Rightarrow> (Inr (), s1)
      | (Inl e, s1) \<Rightarrow>
          if class_of e = KeyboardInterrupt then
            (Inr (), emit (Print ([10, 9940] @ ustr '' Interrupted by user. Exiting.'')) s1)
          else if is_Exception e then
            (Inr (), emit (Print ([10060] @ ustr '' Unexpected error during download: '' @ str_of e)) s1)
          else (Inl e, s1))"

text \<open>Lines 203 to 231: what \<open>main\<close> does once the profile is resolved.\<close>

definition main_tail :: "env \<Rightarrow> pystr \<Rightarrow> profile \<Rightarrow> state \<Rightarrow> (exn + unit) \<times> state" where
  "main_tail E target_profile prof s =
     (case main_private_check E target_profile prof s of
        (Inl e, s1) \<Rightarrow> (Inl e, s1)
      | (Inr u, s1) \<Rightarrow> main_download E prof s1)"

text \<open>
  Lines 155 to 171: the network check and the two questions.  The result is the target
  handle and the session username (\<open>None\<close> when the answer is empty).  Creating the
  \<open>Instaloader\<close> object and setting its \<open>sleep\<close> to 0 have no effect that the program
  observes.
\<close>

definition main_start :: "env \<Rightarrow> state \<Rightarrow> (exn + pystr \<times> pystr option) \<times> state" where
  "main_start E s =
     (case check_dns E s of
        (Inl e, s1) \<Rightarrow> (Inl e, s1)
      | (Inr ok, s1) \<Rightarrow>
          if \<not> ok then
            (Inl (sys_exit 1),
             emit (Print (ustr ''Please check your internet connection / DNS (try 8.8.8.8 or 1.1.1.1). Exiting.'')) s1)
          else
            (case py_input E (ustr ''Enter the Instagram username to download posts from: '') s1 of
               (Inl e, s2) \<Rightarrow> (Inl e, s2)
             | (Inr line, s2) \<Rightarrow>
                 (let target_profile = strip line
                  in if target_profile = [] then
                       (Inl (sys_exit 1), emit (Print (ustr ''No username provided. Exiting.'')) s2)
                     else
                       (case py_input E (ustr ''If you have a saved Instaloader session username, enter it (or press Enter to skip): '') s2 of
                          (Inl e, s3) \<Rightarrow> (Inl e, s3)
                        | (Inr line2, s3) \<Rightarrow>
                            (Inr (target_profile,
                                  if strip line2 = [] then None else Some (strip line2)), s3)))))"

text \<open>Lines 154 to 231: the four parts in sequence.\<close>

definition main :: "env \<Rightarrow> state \<Rightarrow> (exn + unit) \<times> state" where
  "main E s =
     (case main_start E s of
        (Inl e, s1) \<Rightarrow> (Inl e, s1)
      | (Inr (target_profile, session_user), s1) \<Rightarrow>
          (case main_login E session_user s1 of
             (Inl e, s2) \<Rightarrow> (Inl e, s2)
           | (Inr used_user, s2) \<Rightarrow>
               (case main_resolve E target_profile s2 of
                  (Inl e, s3) \<Rightarrow> (Inl e, s3)
                | (Inr prof, s3) \<Rightarrow> main_tail E target_profile prof s3)))"

text \<open>
  The exit status of the process, from how \<open>main()\<close> ends under \<open>if __name__ ==
  "__main__"\<close>: 0 when it returns; the code of a \<open>SystemExit\<close>; for any other exception
  that leaves \<open>main\<close> the interpreter prints the traceback and the status is 1, except
  that an uncaught \<open>KeyboardInterrupt\<close> ends the process as the interrupt signal does
  (status 130).
\<close>

definition exit_status :: "exn + unit \<Rightarrow> int" where
  "exit_status r =
     (case r of
        Inr u \<Rightarrow> 0
      | Inl e \<Rightarrow>
          (case class_of e of
             SystemExit n \<Rightarrow> n
           | KeyboardInterrupt \<Rightarrow> 130
           | _ \<Rightarrow> 1))"

section \<open>Notions used to state the properties\<close>



text \<open>The number of download calls, from call \<open>i\<close> up to call \<open>j\<close>, that succeed.\<close>

definition successes :: "env \<Rightarrow> nat \<Rightarrow> nat \<Rightarrow> nat" where
  "successes E i j = length (filter (\<lambda>k. download_post E k = None) [i..<j])"

text \<open>
  No call made between two states is interrupted; and what the downloader has done
  between two states, with respect to interrupts and to the count it returns.
\<close>

definition seg_quiet :: "env \<Rightarrow> state \<Rightarrow> state \<Rightarrow> bool" where
  "seg_quiet E s s' \<longleftrightarrow>
     (\<forall>k e. n_download s \<le> k \<and> k < n_download s' \<and> download_post E k = Some e
        \<longrightarrow> class_of e \<noteq> KeyboardInterrupt)
     \<and> (\<forall>k. n_sleep s \<le> k \<and> k < n_sleep s' \<longrightarrow> \<not> sleep_interrupted E k)"

definition interrupt_inv :: "env \<Rightarrow> pystr \<Rightarrow> state \<Rightarrow> state \<Rightarrow> nat \<Rightarrow> (exn + nat) \<Rightarrow> bool" where
  "interrupt_inv E sn s s' tot r \<longleftrightarrow>
     n_download s \<le> n_download s' \<and> n_sleep s \<le> n_sleep s'
     \<and> (\<forall>n. r = Inr n \<longrightarrow> n = tot + successes E (n_download s) (n_download s'))
     \<and> (\<forall>k e. n_download s \<le> k \<and> k < n_download s' \<and> download_post E k = Some e
            \<and> class_of e = KeyboardInterrupt \<longrightarrow>
          Suc k = n_download s' \<and> r = Inr (tot + successes E (n_download s) k)
          \<and> trace s' \<noteq> [] \<and> (\<exists>p. last (trace s') = DownloadPost p sn))
     \<and> (\<forall>k. n_sleep s \<le> k \<and> k < n_sleep s' \<and> sleep_interrupted E k \<longrightarrow>
          Suc k = n_sleep s' \<and> r = Inl (Exc KeyboardInterrupt [])
          \<and> trace s' \<noteq> [] \<and> (\<exists>d. last (trace s') = Sleep d))"

fun flow_result :: "exn + flow \<Rightarrow> exn + nat" where
  "flow_result (Inl e) = Inl e"
| "flow_result (Inr (Continue t)) = Inr t"
| "flow_result (Inr (Return t)) = Inr t"

section \<open>Sample environments\<close>

text \<open>An environment in which every call succeeds and every random draw is one half.\<close>

definition quiet_env :: env where
  "quiet_env =
     \<lparr>gethostbyname = None, stdin = (\<lambda>k. Inr []), getpass = Inr [],
      load_session_from_file = (\<lambda>u. None), login = (\<lambda>u pw. None),
      two_factor_login = (\<lambda>c. None), save_session_to_file = None,
      from_username = (\<lambda>u. Inr \<lparr>username = u, is_private = Inr False, get_posts = []\<rparr>),
      test_login = Inr True, makedirs = (\<lambda>d. None), download_post = (\<lambda>k. None),
      random = (\<lambda>k. 1 / 2), sleep_interrupted = (\<lambda>k. False)\<rparr>"

definition failing_env :: env where
  "failing_env = quiet_env\<lparr>download_post := (\<lambda>k. Some (Exc ConnectionException (ustr ''timed out'')))\<rparr>"

definition flaky_env :: env where
  "flaky_env = quiet_env\<lparr>download_post := (\<lambda>k. if k = 0 then Some (Exc OtherException []) else None)\<rparr>"

definition interrupted_sleep_env :: env where
  "interrupted_sleep_env = quiet_env\<lparr>sleep_interrupted := (\<lambda>k. k = 0)\<rparr>"

definition interrupted_download_env :: env where
  "interrupted_download_env =
     quiet_env\<lparr>download_post := (\<lambda>k. if k = 1 then Some (Exc KeyboardInterrupt []) else None)\<rparr>"

definition demo_profile :: profile where
  "demo_profile = \<lparr>username = ustr ''a/b:c'', is_private = Inr False, get_posts = [Inr 1, Inr 2, Inr 3]\<rparr>"

definition private_env :: env where
  "private_env =
     quiet_env\<lparr>stdin := (\<lambda>k. if k = 0 then Inr (ustr ''alice'') else Inr (ustr ''bob'')),
       from_username := (\<lambda>u. Inr \<lparr>username = u, is_private = Inr True, get_posts = [Inr 1]\<rparr>),
       test_login := Inr False\<rparr>"

definition missing_env :: env where
  "missing_env =
     quiet_env\<lparr>stdin := (\<lambda>k. if k = 0 then Inr (ustr ''alice'') else Inr []),
       from_username := (\<lambda>u. Inl (Exc ProfileNotExistsException []))\<rparr>"

definition no_session_env :: env where
  "no_session_env =
     quiet_env\<lparr>load_session_from_file := (\<lambda>u. Some (Exc FileNotFoundError []))\<rparr>"

definition eof_env :: env where
  "eof_env = quiet_env\<lparr>stdin := (\<lambda>k. Inl (Exc EOFError (ustr ''EOF when reading a line'')))\<rparr>"

section \<open>The listed conditions of exit code 1\<close>

text \<open>An exception is a \<open>SystemExit\<close>.\<close>

definition is_exit :: "exn \<Rightarrow> bool" where
  "is_exit e = (case class_of e of SystemExit n \<Rightarrow> True | _ \<Rightarrow> False)"

text \<open>
  No call answered by the environment raises \<open>SystemExit\<close>: the only exits are the
  program's own.
\<close>

definition no_foreign_exit :: "env \<Rightarrow> bool" where
  "no_foreign_exit E \<longleftrightarrow>
     (\<forall>e. gethostbyname E = Some e \<longrightarrow> \<not> is_exit e)
     \<and> (\<forall>k e. stdin E k = Inl e \<longrightarrow> \<not> is_exit e)
     \<and> (\<forall>e. getpass E = Inl e \<longrightarrow> \<not> is_exit e)
     \<and> (\<forall>u e. load_session_from_file E u = Some e \<longrightarrow> \<not> is_exit e)
     \<and> (\<forall>u pw e. login E u pw = Some e \<longrightarrow> \<not> is_exit e)
     \<and> (\<forall>c e. two_factor_login E c = Some e \<longrightarrow> \<not> is_exit e)
     \<and> (\<forall>e. save_session_to_file E = Some e \<longrightarrow> \<not> is_exit e)
     \<and> (\<forall>u e. from_username E u = Inl e \<longrightarrow> \<not> is_exit e)
     \<and> (\<forall>u prof e. from_username E u = Inr prof \<and> is_private prof = Inl e \<longrightarrow> \<not> is_exit e)
     \<and> (\<forall>u prof e. from_username E u = Inr prof \<and> Inl e \<in> set (get_posts prof) \<longrightarrow> \<not> is_exit e)
     \<and> (\<forall>e. test_login E = Inl e \<longrightarrow> \<not> is_exit e)
     \<and> (\<forall>d e. makedirs E d = Some e \<longrightarrow> \<not> is_exit e)
     \<and> (\<forall>k e. download_post E k = Some e \<longrightarrow> \<not> is_exit e)"

text \<open>
  The failures of the profile lookup that the specification lists: the target does not
  exist, the lookup returned "not found", a connection failure, or any other unexpected
  error.
\<close>

definition resolve_failure :: "exn \<Rightarrow> bool" where
  "resolve_failure e \<longleftrightarrow>
     class_of e = ProfileNotExistsException \<or> class_of e = QueryReturnedNotFoundException
     \<or> is_ConnectionException e \<or> is_Exception e"

text \<open>
  The conditions the specification lists for exit code 1, for a run of \<open>main\<close> from
  the state \<open>s0\<close>: the network check fails; the target handle is empty; the login fails
  with a \<open>RuntimeError\<close> and the user does not answer yes; the profile lookup fails; the
  profile is private and the session is not valid.
\<close>

definition exit_one_condition :: "env \<Rightarrow> state \<Rightarrow> bool" where
  "exit_one_condition E s0 \<longleftrightarrow>
     fst (check_dns E s0) = Inr False
     \<or> (\<exists>s1 line. check_dns E s0 = (Inr True, s1)
           \<and> fst (py_input E (ustr ''Enter the Instagram username to download posts from: '') s1)
               = Inr line
           \<and> strip line = [])
     \<or> (\<exists>t su s1 e s2 answer. main_start E s0 = (Inr (t, su), s1)
           \<and> login_with_session E su True s1 = (Inl e, s2) \<and> class_of e = RuntimeError
           \<and> fst (py_input E (ustr ''Continue without login? (yes/no): '')
                    (emit (Print ([10060] @ ustr '' Login/session error: '' @ str_of e)) s2))
               = Inr answer
           \<and> lower (strip answer) \<noteq> ustr ''yes'')
     \<or> (\<exists>t su s1 used_user s2 e. main_start E s0 = (Inr (t, su), s1)
           \<and> main_login E su s1 = (Inr used_user, s2)
           \<and> fst (time_sleep E (1.0 + (3.0 - 1.0) * random E (n_random s2))
                    (s2\<lparr>n_random := Suc (n_random s2)\<rparr>)) = Inr ()
           \<and> from_username E t = Inl e \<and> resolve_failure e)
     \<or> (\<exists>t su s1 used_user s2 prof s3. main_start E s0 = (Inr (t, su), s1)
           \<and> main_login E su s1 = (Inr used_user, s2)
           \<and> main_resolve E t s2 = (Inr prof, s3)
           \<and> is_private prof = Inr True \<and> test_login E = Inr False)"

section \<open>Properties of the sanitizer\<close>

lemmas env_simps = quiet_env_def failing_env_def flaky_env_def interrupted_sleep_env_def
  interrupted_download_env_def demo_profile_def init_state_def private_env_def missing_env_def
  no_session_env_def eof_env_def

lemma ustr_underscore: "ustr ''_'' = [95]"
  by (simp add: ustr_def)

lemma re_sub_class_map:
  "re_sub_class cls [r] s = map (\<lambda>c. if c \<in> set cls then r else c) s"
  by (induction s) simp_all

lemma re_sub_class_free:
  "r \<notin> set cls \<Longrightarrow> c \<in> set (re_sub_class cls [r] s) \<Longrightarrow> c \<notin> set cls"
  by (auto simp: re_sub_class_map)

lemma re_sub_class_id:
  "\<forall>c \<in> set s. c \<notin> set cls \<Longrightarrow> re_sub_class cls repl s = s"
  by (induction s) simp_all

lemma set_lstrip: "set (lstrip s) \<subseteq> set s"
  by (simp add: lstrip_def set_dropWhileD subsetI)

lemma set_rstrip: "set (rstrip s) \<subseteq> set s"
  using set_dropWhileD [of _ isspace "rev s"] by (auto simp: rstrip_def)

lemma set_strip: "set (strip s) \<subseteq> set s"
  using set_lstrip set_rstrip unfolding strip_def by blast

lemma lstrip_hd: "lstrip s \<noteq> [] \<Longrightarrow> \<not> isspace (hd (lstrip s))"
  unfolding lstrip_def by (rule hd_dropWhile)

lemma rstrip_last: "rstrip s \<noteq> [] \<Longrightarrow> \<not> isspace (last (rstrip s))"
  unfolding rstrip_def using hd_dropWhile [of isspace "rev s"]
  by (simp add: last_rev)

lemma rstrip_split: "\<exists>r. s = rstrip s @ r \<and> (\<forall>c \<in> set r. isspace c)"
proof -
  have "rev s = takeWhile isspace (rev s) @ dropWhile isspace (rev s)"
    by simp
  then have "s = rev (dropWhile isspace (rev s)) @ rev (takeWhile isspace (rev s))"
    by (metis rev_append rev_rev_ident)
  moreover have "\<forall>c \<in> set (rev (takeWhile isspace (rev s))). isspace c"
    by (auto dest: set_takeWhileD)
  ultimately show ?thesis
    unfolding rstrip_def by blast
qed

lemma lstrip_split: "\<exists>l. s = l @ lstrip s \<and> (\<forall>c \<in> set l. isspace c)"
proof -
  have "s = takeWhile isspace s @ lstrip s"
    by (simp add: lstrip_def)
  moreover have "\<forall>c \<in> set (takeWhile isspace s). isspace c"
    by (auto dest: set_takeWhileD)
  ultimately show ?thesis by blast
qed

lemma strip_split:
  "\<exists>l r. s = l @ strip s @ r \<and> (\<forall>c \<in> set l. isspace c) \<and> (\<forall>c \<in> set r. isspace c)"
proof -
  obtain l where l: "s = l @ lstrip s" "\<forall>c \<in> set l. isspace c"
    using lstrip_split by blast
  obtain r where r: "lstrip s = rstrip (lstrip s) @ r" "\<forall>c \<in> set r. isspace c"
    using rstrip_split by blast
  have "s = l @ strip s @ r"
    using l(1) r(1) by (simp add: strip_def)
  with l(2) r(2) show ?thesis by blast
qed

lemma rstrip_hd:
  assumes "s \<noteq> []" "\<not> isspace (hd s)"
  shows "rstrip s \<noteq> [] \<and> hd (rstrip s) = hd s"
proof -
  obtain r where r: "s = rstrip s @ r" "\<forall>c \<in> set r. isspace c"
    using rstrip_split by blast
  have "rstrip s \<noteq> []"
  proof
    assume "rstrip s = []"
    with r(1) have "s = r" by simp
    with assms r(2) show False by (cases s) auto
  qed
  moreover from this r(1) have "hd s = hd (rstrip s)"
    by (metis hd_append2)
  ultimately show ?thesis by simp
qed

lemma strip_ends:
  "strip s = [] \<or> (\<not> isspace (hd (strip s)) \<and> \<not> isspace (last (strip s)))"
proof (cases "strip s = []")
  case True
  then show ?thesis by simp
next
  case False
  then have ne: "lstrip s \<noteq> []"
    by (auto simp: strip_def rstrip_def)
  then have "\<not> isspace (hd (lstrip s))"
    by (rule lstrip_hd)
  with ne have "hd (strip s) = hd (lstrip s)"
    unfolding strip_def using rstrip_hd by blast
  with \<open>\<not> isspace (hd (lstrip s))\<close> have "\<not> isspace (hd (strip s))"
    by simp
  moreover have "\<not> isspace (last (strip s))"
    using False unfolding strip_def by (rule rstrip_last)
  ultimately show ?thesis by simp
qed

lemma lstrip_id: "s = [] \<or> \<not> isspace (hd s) \<Longrightarrow> lstrip s = s"
  by (cases s) (auto simp: lstrip_def)

lemma rstrip_id: "s = [] \<or> \<not> isspace (last s) \<Longrightarrow> rstrip s = s"
proof (cases "s = []")
  case True
  then show ?thesis by (simp add: rstrip_def)
next
  case False
  assume "s = [] \<or> \<not> isspace (last s)"
  with False have "\<not> isspace (hd (rev s))"
    by (simp add: hd_rev)
  moreover from False have "rev s \<noteq> []" by simp
  ultimately have "dropWhile isspace (rev s) = rev s"
    by (cases "rev s") auto
  then show ?thesis by (simp add: rstrip_def)
qed

lemma strip_idem: "strip (strip s) = strip s"
proof -
  have e: "strip s = [] \<or> (\<not> isspace (hd (strip s)) \<and> \<not> isspace (last (strip s)))"
    by (rule strip_ends)
  then have "lstrip (strip s) = strip s"
    by (intro lstrip_id) blast
  moreover from e have "rstrip (strip s) = strip s"
    by (intro rstrip_id) blast
  ultimately show ?thesis
    by (simp add: strip_def [of "strip s"])
qed

lemma sanitize_filename_safe:
  "c \<in> set (sanitize_filename name) \<Longrightarrow> c \<notin> set unsafe_chars"
proof -
  assume "c \<in> set (sanitize_filename name)"
  then have "c \<in> set (re_sub_class unsafe_chars [95] name)"
    using set_strip by (auto simp: sanitize_filename_def ustr_underscore)
  moreover have "(95::nat) \<notin> set unsafe_chars"
    by (simp add: unsafe_chars_def)
  ultimately show ?thesis
    by (rule re_sub_class_free [rotated])
qed

text \<open>
  Claim C1.  For every handle, the destination name is the handle with each of the
  characters \<open><>:"/\|?*\<close>, newline, carriage return and tab replaced by an underscore
  (code point 95), and then with the surrounding whitespace trimmed: the replaced handle
  is the result between two runs of whitespace.  The result contains none of those
  characters, is empty or starts and ends with a character that is not whitespace, and
  the handle \<open>a/b:c\<close> gives \<open>a_b_c\<close>.
\<close>

theorem sanitize_filename_spec:
  "sanitize_filename name = strip (map (\<lambda>c. if c \<in> set unsafe_chars then 95 else c) name)
   \<and> (\<exists>l r. map (\<lambda>c. if c \<in> set unsafe_chars then 95 else c) name
                = l @ sanitize_filename name @ r
              \<and> (\<forall>c \<in> set l. isspace c) \<and> (\<forall>c \<in> set r. isspace c))
   \<and> (\<forall>c \<in> set (sanitize_filename name). c \<notin> set unsafe_chars)
   \<and> (sanitize_filename name = []
        \<or> (\<not> isspace (hd (sanitize_filename name))
            \<and> \<not> isspace (last (sanitize_filename name))))
   \<and> sanitize_filename (ustr ''a/b:c'') = ustr ''a_b_c''"
proof -
  let ?m = "map (\<lambda>c. if c \<in> set unsafe_chars then 95 else c) name"
  have eq: "sanitize_filename name = strip ?m"
    by (simp add: sanitize_filename_def ustr_underscore re_sub_class_map)
  have split: "\<exists>l r. ?m = l @ sanitize_filename name @ r
      \<and> (\<forall>c \<in> set l. isspace c) \<and> (\<forall>c \<in> set r. isspace c)"
    unfolding eq by (rule strip_split)
  have safe: "\<forall>c \<in> set (sanitize_filename name). c \<notin> set unsafe_chars"
    using sanitize_filename_safe by blast
  have ends: "sanitize_filename name = []
      \<or> (\<not> isspace (hd (sanitize_filename name))
          \<and> \<not> isspace (last (sanitize_filename name)))"
    unfolding eq by (rule strip_ends)
  have ex: "sanitize_filename (ustr ''a/b:c'') = ustr ''a_b_c''"
    by (simp add: sanitize_filename_def ustr_def unsafe_chars_def strip_def lstrip_def
        rstrip_def isspace_def)
  from eq split safe ends ex show ?thesis by blast
qed

theorem sanitize_filename_spec_witness:
  "sanitize_filename (ustr '' a<b'' @ [9, 32]) = ustr ''a_b_''
   \<and> 9 \<notin> set (sanitize_filename (ustr '' a<b'' @ [9, 32]))
   \<and> \<not> isspace (last (sanitize_filename (ustr '' a<b'' @ [9, 32])))"
proof -
  have e: "sanitize_filename (ustr '' a<b'' @ [9, 32]) = ustr ''a_b_''"
    using sanitize_filename_spec [of "ustr '' a<b'' @ [9, 32]"]
    by (simp add: ustr_def unsafe_chars_def strip_def lstrip_def rstrip_def isspace_def)
  show ?thesis
    unfolding e by (simp add: ustr_def isspace_def)
qed

text \<open>
  Claim C10.  The sanitizer is idempotent: sanitizing a sanitized handle leaves it
  unchanged.
\<close>

theorem sanitize_filename_idem:
  "sanitize_filename (sanitize_filename s) = sanitize_filename s"
proof -
  have "\<forall>c \<in> set (sanitize_filename s). c \<notin> set unsafe_chars"
    using sanitize_filename_safe by blast
  then have "re_sub_class unsafe_chars (ustr ''_'') (sanitize_filename s) = sanitize_filename s"
    by (rule re_sub_class_id)
  then have "sanitize_filename (sanitize_filename s) = strip (sanitize_filename s)"
    by (simp add: sanitize_filename_def [of "sanitize_filename s"])
  also have "\<dots> = sanitize_filename s"
    by (simp add: sanitize_filename_def [of s] strip_idem)
  finally show ?thesis .
qed

section \<open>Properties of the retry loop\<close>

lemma emit_fields [simp]:
  "n_input (emit ev s) = n_input s"
  "n_download (emit ev s) = n_download s"
  "n_random (emit ev s) = n_random s"
  "n_sleep (emit ev s) = n_sleep s"
  "trace (emit ev s) = trace s @ [ev]"
  by (simp_all add: emit_def)

lemma retry_loop_done:
  "\<not> int a \<le> R \<Longrightarrow> retry_loop E sn R b p a tot s = (Inr (Continue tot), s)"
  by (simp add: retry_loop.simps)

lemma retry_loop_ok:
  "int a \<le> R \<Longrightarrow> download_post E (n_download s) = None \<Longrightarrow>
   retry_loop E sn R b p a tot s =
     (Inr (Continue (tot + 1)), (emit (DownloadPost p sn) s)\<lparr>n_download := Suc (n_download s)\<rparr>)"
  by (simp add: retry_loop.simps)

lemma retry_loop_interrupt:
  "int a \<le> R \<Longrightarrow> download_post E (n_download s) = Some e \<Longrightarrow> class_of e = KeyboardInterrupt \<Longrightarrow>
   retry_loop E sn R b p a tot s =
     (Inr (Return tot), (emit (DownloadPost p sn) s)\<lparr>n_download := Suc (n_download s)\<rparr>)"
  by (simp add: retry_loop.simps)

lemma retry_loop_raise:
  "int a \<le> R \<Longrightarrow> download_post E (n_download s) = Some e \<Longrightarrow> class_of e \<noteq> KeyboardInterrupt \<Longrightarrow>
   \<not> is_Exception e \<Longrightarrow>
   retry_loop E sn R b p a tot s =
     (Inl e, (emit (DownloadPost p sn) s)\<lparr>n_download := Suc (n_download s)\<rparr>)"
  by (cases e) (auto simp add: retry_loop.simps is_ConnectionException_def elim: is_Exception.elims)

lemma is_Exception_class: "is_Exception e \<Longrightarrow> class_of e \<noteq> KeyboardInterrupt"
  by (cases e) auto

lemma retry_loop_fail:
  "int a \<le> R \<Longrightarrow> download_post E (n_download s) = Some e \<Longrightarrow> is_Exception e \<Longrightarrow>
   retry_loop E sn R b p a tot s =
     (case time_sleep E (b ^ Suc a + (0.5 + 1.5 * random E (n_random s)))
             ((emit (DownloadPost p sn) s)\<lparr>n_download := Suc (n_download s), n_random := Suc (n_random s)\<rparr>) of
        (Inl e', s3) \<Rightarrow> (Inl e', s3)
      | (Inr u, s3) \<Rightarrow> retry_loop E sn R b p (Suc a) tot s3)"
  apply (subst retry_loop.simps)
  apply (simp add: is_Exception_class random_uniform_def emit_def Let_def)
  done


lemma time_sleep_ok:
  "0 \<le> d \<Longrightarrow> \<not> sleep_interrupted E (n_sleep s) \<Longrightarrow>
   time_sleep E d s = (Inr (), (emit (Sleep d) s)\<lparr>n_sleep := Suc (n_sleep s)\<rparr>)"
  by (simp add: time_sleep_def Let_def)

lemma time_sleep_interrupted:
  "0 \<le> d \<Longrightarrow> sleep_interrupted E (n_sleep s) \<Longrightarrow>
   time_sleep E d s = (Inl (Exc KeyboardInterrupt []), (emit (Sleep d) s)\<lparr>n_sleep := Suc (n_sleep s)\<rparr>)"
  by (simp add: time_sleep_def Let_def)

lemma time_sleep_negative:
  "d < 0 \<Longrightarrow> time_sleep E d s = (Inl (Exc ValueError (ustr ''sleep length must be non-negative'')), s)"
  by (simp add: time_sleep_def)




lemma pacing_sleep_eq:
  "pacing_sleep E mn mx s =
     time_sleep E (mn + (mx - mn) * random E (n_random s) + 1.2 * random E (Suc (n_random s)))
       (s\<lparr>n_random := Suc (Suc (n_random s))\<rparr>)"
  by (simp add: pacing_sleep_def random_uniform_def)









section \<open>Interrupts\<close>

lemma successes_same: "successes E i i = 0"
  by (simp add: successes_def)

lemma successes_one: "successes E i (Suc i) = (if download_post E i = None then 1 else 0)"
  by (simp add: successes_def)

lemma successes_add:
  "i \<le> j \<Longrightarrow> j \<le> k \<Longrightarrow> successes E i j + successes E j k = successes E i k"
proof -
  assume "i \<le> j" "j \<le> k"
  then have "[i..<k] = [i..<j] @ [j..<k]"
    by (metis le_Suc_ex upt_add_eq_append)
  then show ?thesis by (simp add: successes_def)
qed

lemma interrupt_inv_trans:
  assumes q: "seg_quiet E s s1"
    and le: "n_download s \<le> n_download s1" "n_sleep s \<le> n_sleep s1"
    and t: "t = tot + successes E (n_download s) (n_download s1)"
    and i: "interrupt_inv E sn s1 s' t r"
  shows "interrupt_inv E sn s s' tot r"
proof -
  from i have le': "n_download s1 \<le> n_download s'" "n_sleep s1 \<le> n_sleep s'"
    by (simp_all add: interrupt_inv_def)
  have cnt: "\<And>k. n_download s1 \<le> k \<Longrightarrow>
      t + successes E (n_download s1) k = tot + successes E (n_download s) k"
    using successes_add [OF le(1)] t by (simp add: add.assoc)
  have 1: "\<forall>n. r = Inr n \<longrightarrow> n = tot + successes E (n_download s) (n_download s')"
    using i cnt [OF le'(1)] by (simp add: interrupt_inv_def)
  have 2: "\<forall>k e. n_download s \<le> k \<and> k < n_download s' \<and> download_post E k = Some e
            \<and> class_of e = KeyboardInterrupt \<longrightarrow>
          Suc k = n_download s' \<and> r = Inr (tot + successes E (n_download s) k)
          \<and> trace s' \<noteq> [] \<and> (\<exists>p. last (trace s') = DownloadPost p sn)"
  proof (intro allI impI)
    fix k e
    assume a: "n_download s \<le> k \<and> k < n_download s' \<and> download_post E k = Some e
            \<and> class_of e = KeyboardInterrupt"
    with q have "n_download s1 \<le> k"
      unfolding seg_quiet_def by (meson not_le_imp_less)
    with a i cnt [OF this] show "Suc k = n_download s' \<and> r = Inr (tot + successes E (n_download s) k)
          \<and> trace s' \<noteq> [] \<and> (\<exists>p. last (trace s') = DownloadPost p sn)"
      unfolding interrupt_inv_def by metis
  qed
  have 3: "\<forall>k. n_sleep s \<le> k \<and> k < n_sleep s' \<and> sleep_interrupted E k \<longrightarrow>
          Suc k = n_sleep s' \<and> r = Inl (Exc KeyboardInterrupt [])
          \<and> trace s' \<noteq> [] \<and> (\<exists>d. last (trace s') = Sleep d)"
  proof (intro allI impI)
    fix k
    assume a: "n_sleep s \<le> k \<and> k < n_sleep s' \<and> sleep_interrupted E k"
    with q have "n_sleep s1 \<le> k"
      unfolding seg_quiet_def by (meson not_le_imp_less)
    with a i show "Suc k = n_sleep s' \<and> r = Inl (Exc KeyboardInterrupt [])
          \<and> trace s' \<noteq> [] \<and> (\<exists>d. last (trace s') = Sleep d)"
      unfolding interrupt_inv_def by blast
  qed
  from le le' 1 2 3 show ?thesis
    unfolding interrupt_inv_def by (meson order_trans)
qed

lemma seg_quiet_trans:
  "seg_quiet E s s1 \<Longrightarrow> seg_quiet E s1 s' \<Longrightarrow> seg_quiet E s s'"
  unfolding seg_quiet_def by (meson not_le_imp_less)

lemma retry_loop_inv:
  "retry_loop E sn R b p a tot s = (r, s') \<Longrightarrow>
   interrupt_inv E sn s s' tot (flow_result r) \<and>
   ((\<exists>t. r = Inr (Continue t)) \<longrightarrow> seg_quiet E s s')"
proof (induction "nat (R + 1 - int a)" arbitrary: a s)
  case 0
  then have "\<not> int a \<le> R" by simp
  with 0(2) show ?case
    by (auto simp: retry_loop_done interrupt_inv_def seg_quiet_def successes_same)
next
  case (Suc n)
  have le: "int a \<le> R" using Suc.hyps(2) by simp
  let ?s0 = "(emit (DownloadPost p sn) s)\<lparr>n_download := Suc (n_download s)\<rparr>"
  show ?case
  proof (cases "download_post E (n_download s)")
    case None
    with le Suc.prems have "r = Inr (Continue (tot + 1))" "s' = ?s0"
      by (simp_all add: retry_loop_ok)
    with None show ?thesis
      by (auto simp: interrupt_inv_def seg_quiet_def successes_one emit_def less_Suc_eq_le)
  next
    case (Some e)
    show ?thesis
    proof (cases "class_of e = KeyboardInterrupt")
      case True
      with le Some Suc.prems have "r = Inr (Return tot)" "s' = ?s0"
        by (simp_all add: retry_loop_interrupt)
      with Some True show ?thesis
        by (auto simp: interrupt_inv_def seg_quiet_def successes_one successes_same emit_def less_Suc_eq_le)
    next
      case nk: False
      show ?thesis
      proof (cases "is_Exception e")
        case False
        with le Some nk Suc.prems have "r = Inl e" "s' = ?s0"
          by (simp_all add: retry_loop_raise)
        with Some nk show ?thesis
          by (auto simp: interrupt_inv_def seg_quiet_def emit_def less_Suc_eq_le)
      next
        case ex: True
        let ?w = "b ^ Suc a + (0.5 + 1.5 * random E (n_random s))"
        let ?s1 = "(emit (DownloadPost p sn) s)\<lparr>n_download := Suc (n_download s), n_random := Suc (n_random s)\<rparr>"
        let ?s2 = "(emit (Sleep ?w) ?s1)\<lparr>n_sleep := Suc (n_sleep ?s1)\<rparr>"
        note eq = retry_loop_fail [OF le Some ex, of sn b p tot]
        consider (neg) "?w < 0" | (intr) "0 \<le> ?w" "sleep_interrupted E (n_sleep s)"
          | (ok) "0 \<le> ?w" "\<not> sleep_interrupted E (n_sleep s)"
          by linarith
        then show ?thesis
        proof cases
          case neg
          with eq Suc.prems have "r = Inl (Exc ValueError (ustr ''sleep length must be non-negative''))" "s' = ?s1"
            by (simp_all add: time_sleep_negative)
          with Some nk show ?thesis
            by (auto simp: interrupt_inv_def seg_quiet_def emit_def less_Suc_eq_le)
        next
          case intr
          then have "time_sleep E ?w ?s1 = (Inl (Exc KeyboardInterrupt []), ?s2)"
            by (simp add: time_sleep_interrupted)
          with eq Suc.prems have "r = Inl (Exc KeyboardInterrupt [])" "s' = ?s2"
            by simp_all
          with Some nk show ?thesis
            by (auto simp: interrupt_inv_def seg_quiet_def emit_def less_Suc_eq_le)
        next
          case ok
          then have "time_sleep E ?w ?s1 = (Inr (), ?s2)"
            by (simp add: time_sleep_ok)
          with eq Suc.prems have rec: "retry_loop E sn R b p (Suc a) tot ?s2 = (r, s')"
            by simp
          have ih: "interrupt_inv E sn ?s2 s' tot (flow_result r) \<and>
              ((\<exists>t. r = Inr (Continue t)) \<longrightarrow> seg_quiet E ?s2 s')"
            using Suc.hyps(2) rec by (intro Suc.hyps(1)) simp_all
          have q: "seg_quiet E s ?s2"
            using Some nk ok(2) by (auto simp: seg_quiet_def emit_def less_Suc_eq_le)
          have "interrupt_inv E sn s s' tot (flow_result r)"
          proof (rule interrupt_inv_trans [OF q _ _ _ conjunct1 [OF ih]])
            show "tot = tot + successes E (n_download s) (n_download ?s2)"
              using Some by (simp add: emit_def successes_one)
          qed (simp_all add: emit_def)
          with ih q show ?thesis
            by (blast intro: seg_quiet_trans)
        qed
      qed
    qed
  qed
qed

lemma interrupt_inv_same:
  "n_download s' = n_download s \<Longrightarrow> n_sleep s' = n_sleep s \<Longrightarrow> interrupt_inv E sn s s' tot (Inl e)"
  by (auto simp: interrupt_inv_def)

lemma interrupt_inv_refl: "interrupt_inv E sn s s tot (Inr tot)"
  by (auto simp: interrupt_inv_def successes_same)

lemma posts_loop_inv:
  "posts_loop E sn mn mx R b posts tot s = (r, s') \<Longrightarrow> interrupt_inv E sn s s' tot r"
proof (induction posts arbitrary: tot s)
  case Nil
  then show ?case by (auto simp: interrupt_inv_refl)
next
  case (Cons x rest)
  show ?case
  proof (cases x)
    case (Inl e)
    with Cons.prems show ?thesis by (auto simp: interrupt_inv_same)
  next
    case (Inr p)
    obtain r1 s1 where r1: "retry_loop E sn R b p 0 tot s = (r1, s1)"
      by (cases "retry_loop E sn R b p 0 tot s")
    note inv1 = retry_loop_inv [OF r1]
    show ?thesis
    proof (cases r1)
      case e: (Inl e)
      with Cons.prems Inr r1 have "r = Inl e" "s' = s1" by simp_all
      with inv1 e show ?thesis by simp
    next
      case fl: (Inr f)
      show ?thesis
      proof (cases f)
        case (Return t)
        with Cons.prems Inr r1 fl have "r = Inr t" "s' = s1" by simp_all
        with inv1 fl Return show ?thesis by simp
      next
        case (Continue t)
        with inv1 fl have q1: "seg_quiet E s s1" and i1: "interrupt_inv E sn s s1 tot (Inr t)"
          by simp_all
        from i1 have le1: "n_download s \<le> n_download s1" "n_sleep s \<le> n_sleep s1"
          and t: "t = tot + successes E (n_download s) (n_download s1)"
          by (simp_all add: interrupt_inv_def)
        let ?d = "mn + (mx - mn) * random E (n_random s1) + 1.2 * random E (Suc (n_random s1))"
        let ?s1 = "s1\<lparr>n_random := Suc (Suc (n_random s1))\<rparr>"
        let ?s2 = "(emit (Sleep ?d) ?s1)\<lparr>n_sleep := Suc (n_sleep ?s1)\<rparr>"
        have eq: "posts_loop E sn mn mx R b (x # rest) tot s =
            (case time_sleep E ?d ?s1 of (Inl e, s2) \<Rightarrow> (Inl e, s2)
             | (Inr u, s2) \<Rightarrow> posts_loop E sn mn mx R b rest t s2)"
          using Inr r1 fl Continue by (simp add: pacing_sleep_eq)
        consider (neg) "?d < 0" | (intr) "0 \<le> ?d" "sleep_interrupted E (n_sleep s1)"
          | (ok) "0 \<le> ?d" "\<not> sleep_interrupted E (n_sleep s1)"
          by linarith
        then show ?thesis
        proof cases
          case neg
          with eq Cons.prems have "r = Inl (Exc ValueError (ustr ''sleep length must be non-negative''))" "s' = ?s1"
            by (simp_all add: time_sleep_negative)
          then have "interrupt_inv E sn s1 s' t r"
            by (simp add: interrupt_inv_same)
          from interrupt_inv_trans [OF q1 le1 t this] show ?thesis .
        next
          case intr
          then have "time_sleep E ?d ?s1 = (Inl (Exc KeyboardInterrupt []), ?s2)"
            by (simp add: time_sleep_interrupted)
          with eq Cons.prems have "r = Inl (Exc KeyboardInterrupt [])" "s' = ?s2"
            by simp_all
          then have "interrupt_inv E sn s1 s' t r"
            by (auto simp: interrupt_inv_def less_Suc_eq_le)
          from interrupt_inv_trans [OF q1 le1 t this] show ?thesis .
        next
          case ok
          then have "time_sleep E ?d ?s1 = (Inr (), ?s2)"
            by (simp add: time_sleep_ok)
          with eq Cons.prems have "posts_loop E sn mn mx R b rest t ?s2 = (r, s')"
            by simp
          then have ih: "interrupt_inv E sn ?s2 s' t r"
            by (rule Cons.IH)
          have q2: "seg_quiet E s ?s2"
            using q1 ok(2) by (auto simp: seg_quiet_def less_Suc_eq)
          show ?thesis
          proof (rule interrupt_inv_trans [OF q2 _ _ _ ih])
            show "t = tot + successes E (n_download s) (n_download ?s2)"
              using t by simp
          qed (use le1 in simp_all)
        qed
      qed
    qed
  qed
qed

lemma download_posts_inv:
  assumes "download_posts_with_delays E prof mn mx R b s = (r, s')"
  shows "interrupt_inv E (sanitize_filename (username prof)) s s' 0 r"
proof (cases "makedirs E (sanitize_filename (username prof))")
  case (Some e)
  with assms have "r = Inl e" "s' = emit (Makedirs (sanitize_filename (username prof))) s"
    by (simp_all add: download_posts_with_delays_def Let_def)
  then show ?thesis by (simp add: interrupt_inv_same)
next
  case None
  let ?sn = "sanitize_filename (username prof)"
  from None assms have "posts_loop E ?sn mn mx R b (get_posts prof) 0 (emit (Makedirs ?sn) s) = (r, s')"
    by (simp add: download_posts_with_delays_def Let_def)
  from posts_loop_inv [OF this] show ?thesis
    unfolding interrupt_inv_def by simp
qed

text \<open>
  Claim C5, as amended.  The count the downloader returns is the number of download
  calls that succeeded.  An interrupt raised during a download is the last call the
  downloader makes: it returns at once with the number of downloads that had succeeded
  before, the interrupted download is neither retried nor followed by a wait, and no
  further post is attempted.  An interrupt raised during a backoff or a pacing sleep
  also stops the downloader at once, but it leaves the downloader as a
  \<open>KeyboardInterrupt\<close> for the caller to handle: no count is returned.
\<close>

theorem interrupt_aborts_download:
  assumes "download_posts_with_delays E prof mn mx R b s = (r, s')"
  shows "(\<forall>n. r = Inr n \<longrightarrow> n = successes E (n_download s) (n_download s'))
     \<and> (\<forall>k e. n_download s \<le> k \<and> k < n_download s' \<and> download_post E k = Some e
            \<and> class_of e = KeyboardInterrupt \<longrightarrow>
          Suc k = n_download s' \<and> r = Inr (successes E (n_download s) k)
          \<and> trace s' \<noteq> [] \<and> (\<exists>p. last (trace s') = DownloadPost p (sanitize_filename (username prof))))
     \<and> (\<forall>k. n_sleep s \<le> k \<and> k < n_sleep s' \<and> sleep_interrupted E k \<longrightarrow>
          Suc k = n_sleep s' \<and> r = Inl (Exc KeyboardInterrupt [])
          \<and> trace s' \<noteq> [] \<and> (\<exists>d. last (trace s') = Sleep d))"
  using download_posts_inv [OF assms] unfolding interrupt_inv_def by simp

text \<open>
  One post is downloaded, then the user interrupts the pacing sleep: the downloader
  raises \<open>KeyboardInterrupt\<close> and does not return the count 1.
\<close>

theorem interrupt_during_pacing_sleep:
  "fst (download_posts_with_delays interrupted_sleep_env demo_profile 4.0 9.0 3 2 init_state)
     = Inl (Exc KeyboardInterrupt [])
   \<and> fst (download_posts_with_delays interrupted_sleep_env demo_profile 4.0 9.0 3 2 init_state)
     \<noteq> Inr 1
   \<and> download_post interrupted_sleep_env 0 = None
   \<and> trace (snd (download_posts_with_delays interrupted_sleep_env demo_profile 4.0 9.0 3 2 init_state))
     = [Makedirs (ustr ''a_b_c''), DownloadPost 1 (ustr ''a_b_c''), Sleep (71 / 10)]"
  by (simp add: download_posts_with_delays_def retry_loop.simps env_simps pacing_sleep_def
      random_uniform_def time_sleep_def emit_def Let_def sanitize_filename_def ustr_def
      unsafe_chars_def strip_def lstrip_def rstrip_def isspace_def)

theorem interrupt_aborts_download_witness:
  "fst (download_posts_with_delays interrupted_download_env demo_profile 4.0 9.0 3 2 init_state)
     = Inr 1
   \<and> n_download (snd (download_posts_with_delays interrupted_download_env demo_profile 4.0 9.0 3 2 init_state)) = 2"
proof -
  let ?run = "download_posts_with_delays interrupted_download_env demo_profile 4.0 9.0 3 2 init_state"
  have n: "n_download (snd ?run) = 2"
    by (simp add: download_posts_with_delays_def retry_loop.simps env_simps pacing_sleep_def
      random_uniform_def time_sleep_def emit_def Let_def)
  have pair: "?run = (fst ?run, snd ?run)" by simp
  have hyp: "n_download init_state \<le> 1 \<and> 1 < n_download (snd ?run)
      \<and> download_post interrupted_download_env 1 = Some (Exc KeyboardInterrupt [])
      \<and> class_of (Exc KeyboardInterrupt []) = KeyboardInterrupt"
    unfolding n by (simp add: env_simps)
  have "\<forall>k e. n_download init_state \<le> k \<and> k < n_download (snd ?run)
            \<and> download_post interrupted_download_env k = Some e
            \<and> class_of e = KeyboardInterrupt \<longrightarrow>
          fst ?run = Inr (successes interrupted_download_env (n_download init_state) k)"
    using interrupt_aborts_download [OF pair] by blast
  with hyp have "fst ?run = Inr (successes interrupted_download_env (n_download init_state) 1)"
    by blast
  also have "\<dots> = Inr 1"
    by (simp add: successes_def env_simps)
  finally show ?thesis using n by simp
qed

section \<open>Contained failures and pacing\<close>









section \<open>Login, the private check and the exit codes\<close>

lemma py_input_fields [simp]:
  "n_download (snd (py_input E pr s)) = n_download s"
  "trace (snd (py_input E pr s)) = trace s @ [Input pr]"
  "fst (py_input E pr s) = stdin E (n_input s)"
  by (simp_all add: py_input_def)

lemma time_sleep_n_download [simp]: "n_download (snd (time_sleep E d s)) = n_download s"
  by (simp add: time_sleep_def Let_def)

lemma random_uniform_n_download [simp]: "n_download (snd (random_uniform E a b s)) = n_download s"
  by (simp add: random_uniform_def)

lemma check_dns_n_download [simp]: "n_download (snd (check_dns E s)) = n_download s"
  by (simp add: check_dns_def Let_def split: option.splits)

lemma get_credentials_n_download [simp]: "n_download (snd (get_credentials E s)) = n_download s"
  by (simp add: get_credentials_def py_input_def Let_def split: prod.splits sum.splits)

lemma try_load_session_n_download [simp]:
  "n_download (snd (try_load_session E user s)) = n_download s"
  by (simp add: try_load_session_def Let_def split: option.splits)

lemma two_factor_path_n_download [simp]:
  "n_download (snd (two_factor_path E user code s)) = n_download s"
  by (simp add: two_factor_path_def Let_def split: option.splits)

lemma interactive_login_n_download [simp]:
  "n_download (snd (interactive_login E s)) = n_download s"
proof -
  obtain r s1 where g: "get_credentials E s = (r, s1)" by (cases "get_credentials E s")
  then have n1: "n_download s1 = n_download s"
    using get_credentials_n_download [of E s] by simp
  show ?thesis
  proof (cases r)
    case (Inl e)
    with g n1 show ?thesis by (simp add: interactive_login_def)
  next
    case (Inr c)
    obtain user passwd where c: "c = (user, passwd)" by (cases c)
    obtain d s2 where u: "random_uniform E 1.5 4.0 s1 = (d, s2)" by (cases "random_uniform E 1.5 4.0 s1")
    then have n2: "n_download s2 = n_download s"
      using random_uniform_n_download [of E "1.5" "4.0" s1] n1 by simp
    obtain r3 s3 where t: "time_sleep E d s2 = (r3, s3)" by (cases "time_sleep E d s2")
    then have n3: "n_download s3 = n_download s"
      using time_sleep_n_download [of E d s2] n2 by simp
    show ?thesis
    proof (cases r3)
      case (Inl e)
      with g Inr c u t n3 show ?thesis by (simp add: interactive_login_def)
    next
      case (Inr x)
      have "n_download (snd (two_factor_path E user code s')) = n_download s'" for code s'
        by simp
      with g \<open>r = Inr c\<close> c u t Inr n3 show ?thesis
        by (simp add: interactive_login_def Let_def py_input_def split: option.splits sum.splits prod.splits)
    qed
  qed
qed

lemma login_with_session_n_download [simp]:
  "n_download (snd (login_with_session E user ai s)) = n_download s"
proof -
  obtain r s1 where t: "try_load_session E user s = (r, s1)" by (cases "try_load_session E user s")
  then have "n_download s1 = n_download s"
    using try_load_session_n_download [of E user s] by simp
  with t show ?thesis
    by (simp add: login_with_session_def split: sum.splits option.splits)
qed

lemma main_login_n_download [simp]:
  "n_download (snd (main_login E su s)) = n_download s"
proof -
  obtain r s1 where t: "login_with_session E su True s = (r, s1)"
    by (cases "login_with_session E su True s")
  then have "n_download s1 = n_download s"
    using login_with_session_n_download [of E su True s] by simp
  with t show ?thesis
    by (simp add: main_login_def Let_def py_input_def split: sum.splits prod.splits)
qed

lemma main_resolve_n_download [simp]:
  "n_download (snd (main_resolve E t s)) = n_download s"
  by (simp add: main_resolve_def Let_def random_uniform_def time_sleep_def
      split: sum.splits prod.splits)

lemma interactive_login_prompts_first:
  "\<exists>es. trace (snd (interactive_login E s)) =
      trace s @ Input (ustr ''Enter your Instagram username: '') # es"
proof -
  let ?p = "ustr ''Enter your Instagram username: ''"
  have g: "\<exists>es. trace (snd (get_credentials E s)) = trace s @ Input ?p # es"
    by (auto simp: get_credentials_def py_input_def Let_def split: sum.splits)
  obtain r s1 where c: "get_credentials E s = (r, s1)" by (cases "get_credentials E s")
  with g obtain es1 where e1: "trace s1 = trace s @ Input ?p # es1" by auto
  have ext: "\<exists>es. trace (snd (interactive_login E s)) = trace s1 @ es"
  proof (cases r)
    case (Inl e)
    with c show ?thesis by (simp add: interactive_login_def)
  next
    case (Inr cr)
    obtain user passwd where cr: "cr = (user, passwd)" by (cases cr)
    have tf: "\<exists>es. trace (snd (two_factor_path E user code s')) = trace s' @ es" for code s'
      by (auto simp: two_factor_path_def Let_def split: option.splits)
    have ts: "\<exists>es. trace (snd (time_sleep E d s')) = trace s' @ es" for d s'
      by (auto simp: time_sleep_def Let_def)
    let ?s2 = "s1\<lparr>n_random := Suc (n_random s1)\<rparr>"
    let ?d = "1.5 + (4.0 - 1.5) * random E (n_random s1)"
    obtain r3 s3 where t: "time_sleep E ?d ?s2 = (r3, s3)" by (cases "time_sleep E ?d ?s2")
    with ts [of ?d ?s2] obtain es3 where e3: "trace s3 = trace s1 @ es3" by auto
    show ?thesis
    proof (cases r3)
      case (Inl e)
      with c Inr cr t e3 show ?thesis
        by (simp add: interactive_login_def random_uniform_def)
    next
      case r3: (Inr x)
      let ?s4 = "emit (Login user passwd) (emit (Print (ustr ''Attempting login...'')) s3)"
      show ?thesis
      proof (cases "login E user passwd")
        case None
        with c Inr cr t r3 e3 show ?thesis
          by (auto simp: interactive_login_def random_uniform_def Let_def split: option.splits)
      next
        case (Some e)
        let ?s5 = "emit (Print ([9888, 65039] @ ustr '' Two-factor authentication required.'')) ?s4"
        let ?q = "ustr ''Enter 2FA code (from your authenticator/SMS): ''"
        from tf [of "strip line" "snd (py_input E ?q ?s5)" for line]
        have "\<exists>es. trace (snd (two_factor_path E user (strip line) (snd (py_input E ?q ?s5)))) =
            trace s1 @ es" for line
          using e3 by auto
        with c Inr cr t r3 e3 Some show ?thesis
          by (auto simp: interactive_login_def random_uniform_def Let_def py_input_def
              split: sum.splits)
      qed
    qed
  qed
  then obtain es where "trace (snd (interactive_login E s)) = trace s1 @ es" by blast
  with e1 show ?thesis by simp
qed

text \<open>
  Claim C7.  With a preferred session identifier that is not empty: when the persisted
  session loads, the resolver returns that identifier at once; what it has done is the
  load and one message, with no prompt, no pause and no login call.  When there is no
  session file for it (\<open>FileNotFoundError\<close>), nothing is raised for that: with
  interactive login allowed the resolver goes on as the interactive login does, whose
  first action is the username prompt; with interactive login disallowed it fails at
  once with a \<open>RuntimeError\<close>.
\<close>

theorem login_with_session_paths:
  assumes "u \<noteq> []"
  shows "(load_session_from_file E u = None \<longrightarrow>
            login_with_session E (Some u) allow_interactive s =
              (Inr u, emit (Print ([9989] @ ustr '' Loaded session from file.''))
                        (emit (LoadSession u) s)))
     \<and> (\<forall>e s1. load_session_from_file E u = Some e \<and> class_of e = FileNotFoundError
            \<and> s1 = emit (Print ([9888, 65039] @ ustr '' Session file not found for user: '' @ u))
                     (emit (LoadSession u) s) \<longrightarrow>
          login_with_session E (Some u) True s = interactive_login E s1
          \<and> (\<exists>es. trace (snd (login_with_session E (Some u) True s)) =
                 trace s1 @ Input (ustr ''Enter your Instagram username: '') # es)
          \<and> login_with_session E (Some u) False s =
              (Inl (Exc RuntimeError (ustr ''No session available and interactive login disabled.'')),
               s1))"
proof (intro conjI allI impI)
  assume "load_session_from_file E u = None"
  with assms show "login_with_session E (Some u) allow_interactive s =
      (Inr u, emit (Print ([9989] @ ustr '' Loaded session from file.'')) (emit (LoadSession u) s))"
    by (simp add: login_with_session_def try_load_session_def Let_def)
next
  fix e s1
  assume a: "load_session_from_file E u = Some e \<and> class_of e = FileNotFoundError
      \<and> s1 = emit (Print ([9888, 65039] @ ustr '' Session file not found for user: '' @ u))
               (emit (LoadSession u) s)"
  have sp: "ustr '' Session file not found for user:'' @ ustr '' '' @ u
      = ustr '' Session file not found for user: '' @ u"
    by (simp add: ustr_def)
  from a assms have t: "try_load_session E (Some u) s = (Inr None, s1)"
    by (simp add: try_load_session_def Let_def sp)
  then show i: "login_with_session E (Some u) True s = interactive_login E s1"
    by (simp add: login_with_session_def)
  show "\<exists>es. trace (snd (login_with_session E (Some u) True s)) =
      trace s1 @ Input (ustr ''Enter your Instagram username: '') # es"
    unfolding i by (rule interactive_login_prompts_first)
  from t show "login_with_session E (Some u) False s =
      (Inl (Exc RuntimeError (ustr ''No session available and interactive login disabled.'')), s1)"
    by (simp add: login_with_session_def)
qed

lemma main_start_n_download [simp]: "n_download (snd (main_start E s)) = n_download s"
proof -
  obtain r s1 where c: "check_dns E s = (r, s1)" by (cases "check_dns E s")
  then have "n_download s1 = n_download s"
    using check_dns_n_download [of E s] by simp
  with c show ?thesis
    by (simp add: main_start_def Let_def py_input_def split: sum.splits prod.splits)
qed

lemma main_reaches_tail:
  assumes "main_start E s0 = (Inr (t, su), s1)" "main_login E su s1 = (Inr uu, s2)"
    "main_resolve E t s2 = (Inr prof, s3)"
  shows "main E s0 = main_tail E t prof s3" "n_download s3 = n_download s0"
proof -
  show "main E s0 = main_tail E t prof s3"
    using assms by (simp add: main_def)
  have "n_download s1 = n_download s0"
    using main_start_n_download [of E s0] assms(1) by simp
  moreover have "n_download s2 = n_download s1"
    using main_login_n_download [of E su s1] assms(2) by simp
  moreover have "n_download s3 = n_download s2"
    using main_resolve_n_download [of E t s2] assms(3) by simp
  ultimately show "n_download s3 = n_download s0" by simp
qed

lemma exit_status_simps [simp]:
  "exit_status (Inr u) = 0"
  "exit_status (Inl (sys_exit n)) = n"
  by (simp_all add: exit_status_def sys_exit_def)

text \<open>
  Claim C8.  Let \<open>main\<close> have resolved the profile.  If the profile is private and
  \<open>test_login\<close> reports no valid session, the program prints its message and exits
  with code 1, and no download call has been made.  If reading the private flag, or
  \<open>test_login\<close>, raises an \<open>Exception\<close>, the program goes on with the download phase.
\<close>

theorem private_profile_check:
  assumes "main_start E s0 = (Inr (t, su), s1)" and "main_login E su s1 = (Inr uu, s2)"
    and "main_resolve E t s2 = (Inr prof, s3)"
  shows "(is_private prof = Inr True \<and> test_login E = Inr False \<longrightarrow>
            main E s0 =
              (Inl (sys_exit 1),
               emit (Print ([10060] @ ustr '' The profile '' @ [39] @ t @ [39]
                      @ ustr '' is private. You must be logged in and follow them.''))
                 (emit TestLogin s3))
            \<and> exit_status (fst (main E s0)) = 1
            \<and> n_download (snd (main E s0)) = n_download s0)
     \<and> (\<forall>e. is_private prof = Inl e \<and> is_Exception e \<longrightarrow>
            main E s0 = main_download E prof s3)
     \<and> (\<forall>e. is_private prof = Inr True \<and> test_login E = Inl e \<and> is_Exception e \<longrightarrow>
            main E s0 = main_download E prof (emit TestLogin s3))"
proof -
  note r = main_reaches_tail [OF assms]
  have 1: "is_private prof = Inr True \<and> test_login E = Inr False \<longrightarrow>
            main E s0 =
              (Inl (sys_exit 1),
               emit (Print ([10060] @ ustr '' The profile '' @ [39] @ t @ [39]
                      @ ustr '' is private. You must be logged in and follow them.''))
                 (emit TestLogin s3))
            \<and> exit_status (fst (main E s0)) = 1
            \<and> n_download (snd (main E s0)) = n_download s0"
    unfolding r(1) using r(2) by (simp add: main_tail_def main_private_check_def Let_def)
  have 2: "\<forall>e. is_private prof = Inl e \<and> is_Exception e \<longrightarrow>
            main E s0 = main_download E prof s3"
    unfolding r(1) by (simp add: main_tail_def main_private_check_def)
  have 3: "\<forall>e. is_private prof = Inr True \<and> test_login E = Inl e \<and> is_Exception e \<longrightarrow>
            main E s0 = main_download E prof (emit TestLogin s3)"
    unfolding r(1) by (simp add: main_tail_def main_private_check_def Let_def)
  from 1 2 3 show ?thesis by blast
qed

lemma is_exit_sys_exit [simp]: "is_exit (sys_exit n)"
  by (simp add: is_exit_def sys_exit_def)

lemma is_exit_not_Exception: "is_exit e \<Longrightarrow> \<not> is_Exception e"
  by (cases e rule: is_Exception.cases) (simp_all add: is_exit_def)

lemma is_exit_class: "is_exit e \<Longrightarrow> class_of e \<noteq> KeyboardInterrupt \<and> class_of e \<noteq> RuntimeError
    \<and> class_of e \<noteq> FileNotFoundError \<and> class_of e \<noteq> ValueError
    \<and> class_of e \<noteq> TwoFactorAuthRequiredException \<and> class_of e \<noteq> ProfileNotExistsException
    \<and> class_of e \<noteq> QueryReturnedNotFoundException \<and> \<not> is_ConnectionException e
    \<and> \<not> is_LoginException e"
  by (auto simp: is_exit_def is_ConnectionException_def is_LoginException_def split: exc_class.splits)

lemma not_exit_cases: "\<not> is_exit e \<Longrightarrow> class_of e = KeyboardInterrupt \<or> is_Exception e"
  by (cases e rule: is_Exception.cases) (simp_all add: is_exit_def)

lemma resolve_failure_Exception: "resolve_failure e \<longleftrightarrow> is_Exception e"
  by (cases e rule: is_Exception.cases)
    (auto simp: resolve_failure_def is_ConnectionException_def)

lemma check_dns_no_exit:
  "no_foreign_exit E \<Longrightarrow> fst (check_dns E s) = Inl e \<Longrightarrow> \<not> is_exit e"
  by (auto simp: check_dns_def no_foreign_exit_def Let_def split: option.splits if_splits)

lemma py_input_no_exit:
  "no_foreign_exit E \<Longrightarrow> fst (py_input E pr s) = Inl e \<Longrightarrow> \<not> is_exit e"
  by (auto simp: no_foreign_exit_def)

lemma time_sleep_no_exit: "fst (time_sleep E d s) = Inl e \<Longrightarrow> \<not> is_exit e"
  by (auto simp: time_sleep_def Let_def is_exit_def split: if_splits)

lemma get_credentials_no_exit:
  "no_foreign_exit E \<Longrightarrow> fst (get_credentials E s) = Inl e \<Longrightarrow> \<not> is_exit e"
  by (auto simp: get_credentials_def py_input_def no_foreign_exit_def Let_def
      split: sum.splits if_splits)

lemma try_load_session_no_exit:
  "no_foreign_exit E \<Longrightarrow> fst (try_load_session E user s) = Inl e \<Longrightarrow> \<not> is_exit e"
  by (auto simp: try_load_session_def no_foreign_exit_def Let_def split: option.splits if_splits)

lemma two_factor_path_no_exit:
  "no_foreign_exit E \<Longrightarrow> fst (two_factor_path E user code s) = Inl e \<Longrightarrow> \<not> is_exit e"
  by (auto simp: two_factor_path_def no_foreign_exit_def Let_def is_exit_def
      split: option.splits if_splits)

lemma interactive_login_no_exit:
  assumes c: "no_foreign_exit E" and r: "fst (interactive_login E s) = Inl e"
  shows "\<not> is_exit e"
proof -
  obtain r1 s1 where g: "get_credentials E s = (r1, s1)" by (cases "get_credentials E s")
  show ?thesis
  proof (cases r1)
    case (Inl e1)
    with g r have "e = e1" by (simp add: interactive_login_def)
    with get_credentials_no_exit [OF c, of s e1] g Inl show ?thesis by simp
  next
    case (Inr cr)
    obtain user passwd where cr: "cr = (user, passwd)" by (cases cr)
    let ?s2 = "s1\<lparr>n_random := Suc (n_random s1)\<rparr>"
    let ?d = "1.5 + (4.0 - 1.5) * random E (n_random s1)"
    obtain r3 s3 where t: "time_sleep E ?d ?s2 = (r3, s3)" by (cases "time_sleep E ?d ?s2")
    show ?thesis
    proof (cases r3)
      case (Inl e3)
      with g Inr cr t r have "e = e3" by (simp add: interactive_login_def random_uniform_def)
      with time_sleep_no_exit [of E ?d ?s2 e3] t Inl show ?thesis by simp
    next
      case r3: (Inr x)
      let ?s4 = "emit (Login user passwd) (emit (Print (ustr ''Attempting login...'')) s3)"
      have eq: "interactive_login E s =
         (case login E user passwd of
            None \<Rightarrow>
              (let s5 = emit SaveSession ?s4
               in case save_session_to_file E of
                    None \<Rightarrow>
                      (Inr user,
                       emit (Print ([9989] @ ustr '' Login successful and session saved.'')) s5)
                  | Some e \<Rightarrow>
                      if is_Exception e then
                        (Inr user,
                         emit (Print ([9888, 65039]
                           @ ustr '' Login successful but could not save session file.'')) s5)
                      else (Inl e, s5))
          | Some e \<Rightarrow>
              if class_of e = TwoFactorAuthRequiredException then
                (let s5 = emit (Print ([9888, 65039]
                            @ ustr '' Two-factor authentication required.'')) ?s4
                 in case py_input E (ustr ''Enter 2FA code (from your authenticator/SMS): '') s5 of
                      (Inl e', s6) \<Rightarrow> (Inl e', s6)
                    | (Inr line, s6) \<Rightarrow> two_factor_path E user (strip line) s6)
              else if is_LoginException e then
                (Inl (Exc RuntimeError (ustr ''Login failed: '' @ str_of e)), ?s4)
              else if is_ConnectionException e then
                (Inl (Exc RuntimeError (ustr ''Connection error during login: '' @ str_of e)), ?s4)
              else (Inl e, ?s4))"
        using g Inr cr t r3 by (simp add: interactive_login_def random_uniform_def Let_def)
      show ?thesis
      proof (cases "login E user passwd")
        case None
        with r c show ?thesis
          unfolding eq by (auto simp: Let_def no_foreign_exit_def split: option.splits if_splits)
      next
        case (Some el)
        from c Some have nel: "\<not> is_exit el" by (auto simp: no_foreign_exit_def)
        show ?thesis
        proof (cases "class_of el = TwoFactorAuthRequiredException")
          case False
          with r Some nel show ?thesis
            unfolding eq by (auto simp: is_exit_def split: if_splits)
        next
          case True
          let ?s5 = "emit (Print ([9888, 65039] @ ustr '' Two-factor authentication required.'')) ?s4"
          let ?q = "ustr ''Enter 2FA code (from your authenticator/SMS): ''"
          obtain r6 s6 where p: "py_input E ?q ?s5 = (r6, s6)" by (cases "py_input E ?q ?s5")
          show ?thesis
          proof (cases r6)
            case (Inl e6)
            with r Some True p have "e = e6" unfolding eq by (simp add: Let_def)
            moreover from p Inl have "fst (py_input E ?q ?s5) = Inl e6" by (metis fst_conv)
            ultimately show ?thesis using py_input_no_exit [OF c] by blast
          next
            case (Inr line)
            with r Some True p have "fst (two_factor_path E user (strip line) s6) = Inl e"
              unfolding eq by (simp add: Let_def)
            then show ?thesis by (rule two_factor_path_no_exit [OF c])
          qed
        qed
      qed
    qed
  qed
qed

lemma login_with_session_no_exit:
  assumes c: "no_foreign_exit E" and r: "fst (login_with_session E user ai s) = Inl e"
  shows "\<not> is_exit e"
proof -
  obtain r1 s1 where t: "try_load_session E user s = (r1, s1)" by (cases "try_load_session E user s")
  show ?thesis
  proof (cases r1)
    case (Inl e1)
    with t r have "e = e1" by (simp add: login_with_session_def)
    with try_load_session_no_exit [OF c, of user s e1] t Inl show ?thesis by simp
  next
    case (Inr ou)
    show ?thesis
    proof (cases ou)
      case (Some u)
      with t Inr r show ?thesis by (simp add: login_with_session_def)
    next
      case None
      show ?thesis
      proof (cases ai)
        case False
        with t Inr None r show ?thesis by (auto simp: login_with_session_def is_exit_def)
      next
        case True
        with t Inr None r have "fst (interactive_login E s1) = Inl e"
          by (simp add: login_with_session_def)
        then show ?thesis by (rule interactive_login_no_exit [OF c])
      qed
    qed
  qed
qed

lemma main_start_exit:
  assumes c: "no_foreign_exit E" and r: "fst (main_start E s) = Inl e" and x: "is_exit e"
  shows "fst (check_dns E s) = Inr False
     \<or> (\<exists>s1 line. check_dns E s = (Inr True, s1)
           \<and> fst (py_input E (ustr ''Enter the Instagram username to download posts from: '') s1)
               = Inr line
           \<and> strip line = [])"
proof -
  obtain r1 s1 where d: "check_dns E s = (r1, s1)" by (cases "check_dns E s")
  show ?thesis
  proof (cases r1)
    case (Inl e1)
    with d r have "e = e1" by (simp add: main_start_def)
    with check_dns_no_exit [OF c, of s e1] d Inl x show ?thesis by simp
  next
    case (Inr ok)
    show ?thesis
    proof (cases ok)
      case False
      with d Inr show ?thesis by simp
    next
      case True
      let ?p1 = "ustr ''Enter the Instagram username to download posts from: ''"
      let ?p2 = "ustr ''If you have a saved Instaloader session username, enter it (or press Enter to skip): ''"
      obtain r2 s2 where i: "py_input E ?p1 s1 = (r2, s2)" by (cases "py_input E ?p1 s1")
      show ?thesis
      proof (cases r2)
        case (Inl e2)
        with d Inr True i r have "e = e2" by (simp add: main_start_def)
        moreover from i Inl have "fst (py_input E ?p1 s1) = Inl e2" by (metis fst_conv)
        ultimately show ?thesis using py_input_no_exit [OF c] x by blast
      next
        case line: (Inr line)
        show ?thesis
        proof (cases "strip line = []")
          case empty: True
          from i line have "fst (py_input E ?p1 s1) = Inr line" by (metis fst_conv)
          moreover from d Inr True have "check_dns E s = (Inr True, s1)" by simp
          ultimately show ?thesis using empty by blast
        next
          case False
          obtain r3 s3 where j: "py_input E ?p2 s2 = (r3, s3)" by (cases "py_input E ?p2 s2")
          show ?thesis
          proof (cases r3)
            case (Inl e3)
            with d Inr True i line False j r have "e = e3" by (simp add: main_start_def Let_def)
            moreover from j Inl have "fst (py_input E ?p2 s2) = Inl e3" by (metis fst_conv)
            ultimately show ?thesis using py_input_no_exit [OF c] x by blast
          next
            case (Inr line2)
            with d \<open>r1 = Inr ok\<close> True i line False j r show ?thesis
              by (simp add: main_start_def Let_def)
          qed
        qed
      qed
    qed
  qed
qed

lemma main_login_exit:
  assumes c: "no_foreign_exit E" and r: "fst (main_login E su s) = Inl e" and x: "is_exit e"
  shows "\<exists>e1 s2 answer. login_with_session E su True s = (Inl e1, s2) \<and> class_of e1 = RuntimeError
           \<and> fst (py_input E (ustr ''Continue without login? (yes/no): '')
                    (emit (Print ([10060] @ ustr '' Login/session error: '' @ str_of e1)) s2))
               = Inr answer
           \<and> lower (strip answer) \<noteq> ustr ''yes''"
proof -
  obtain r1 s1 where l: "login_with_session E su True s = (r1, s1)"
    by (cases "login_with_session E su True s")
  show ?thesis
  proof (cases r1)
    case (Inr u)
    with l r show ?thesis by (simp add: main_login_def)
  next
    case (Inl e1)
    with l have "fst (login_with_session E su True s) = Inl e1" by simp
    from login_with_session_no_exit [OF c this] have n1: "\<not> is_exit e1" .
    show ?thesis
    proof (cases "class_of e1 = RuntimeError")
      case False
      with l Inl r have "e = e1" by (simp add: main_login_def)
      with n1 x show ?thesis by simp
    next
      case True
      let ?q = "ustr ''Continue without login? (yes/no): ''"
      let ?s2 = "emit (Print ([10060] @ ustr '' Login/session error: '' @ str_of e1)) s1"
      obtain r3 s3 where p: "py_input E ?q ?s2 = (r3, s3)" by (cases "py_input E ?q ?s2")
      show ?thesis
      proof (cases r3)
        case e3: (Inl e3)
        with l Inl True p r have "e = e3" by (simp add: main_login_def Let_def)
        moreover from p e3 have "fst (py_input E ?q ?s2) = Inl e3" by (metis fst_conv)
        ultimately show ?thesis using py_input_no_exit [OF c] x by blast
      next
        case (Inr answer)
        with l Inl True p r have "lower (strip answer) \<noteq> ustr ''yes''"
          by (auto simp: main_login_def Let_def split: if_splits)
        moreover from p Inr have "fst (py_input E ?q ?s2) = Inr answer" by (metis fst_conv)
        ultimately show ?thesis using l Inl True by blast
      qed
    qed
  qed
qed

lemma main_resolve_exit:
  assumes c: "no_foreign_exit E" and r: "fst (main_resolve E t s) = Inl e" and x: "is_exit e"
  shows "fst (time_sleep E (1.0 + (3.0 - 1.0) * random E (n_random s))
                    (s\<lparr>n_random := Suc (n_random s)\<rparr>)) = Inr ()
     \<and> (\<exists>e1. from_username E t = Inl e1 \<and> resolve_failure e1)"
proof -
  let ?d = "1.0 + (3.0 - 1.0) * random E (n_random s)"
  let ?s1 = "s\<lparr>n_random := Suc (n_random s)\<rparr>"
  obtain r2 s2 where t: "time_sleep E ?d ?s1 = (r2, s2)" by (cases "time_sleep E ?d ?s1")
  show ?thesis
  proof (cases r2)
    case (Inl e2)
    with t r have "e = e2" by (simp add: main_resolve_def random_uniform_def)
    with time_sleep_no_exit [of E ?d ?s1 e2] t Inl x show ?thesis by simp
  next
    case (Inr u)
    show ?thesis
    proof (cases "from_username E t")
      case prof: (Inr prof)
      with t Inr r show ?thesis by (simp add: main_resolve_def random_uniform_def Let_def)
    next
      case (Inl e1)
      with c have n1: "\<not> is_exit e1" by (auto simp: no_foreign_exit_def)
      have "is_Exception e1"
      proof (rule ccontr)
        assume ne: "\<not> is_Exception e1"
        then have "class_of e1 \<noteq> ProfileNotExistsException"
          "class_of e1 \<noteq> QueryReturnedNotFoundException" "\<not> is_ConnectionException e1"
          by (cases e1 rule: is_Exception.cases; simp add: is_ConnectionException_def)+
        with t Inr Inl r ne have "e = e1"
          by (simp add: main_resolve_def random_uniform_def Let_def)
        with n1 x show False by simp
      qed
      with t Inr Inl show ?thesis
        by (simp add: resolve_failure_Exception)
    qed
  qed
qed

lemma main_resolve_profile:
  "main_resolve E t s = (Inr prof, s3) \<Longrightarrow> from_username E t = Inr prof"
  by (auto simp: main_resolve_def random_uniform_def Let_def sys_exit_def
      split: prod.splits sum.splits if_splits)

lemma main_private_check_exit:
  assumes "\<forall>e. is_private prof = Inl e \<longrightarrow> \<not> is_exit e"
    and "\<forall>e. test_login E = Inl e \<longrightarrow> \<not> is_exit e"
    and "fst (main_private_check E t prof s) = Inl e" and "is_exit e"
  shows "is_private prof = Inr True \<and> test_login E = Inr False"
  using assms
  by (auto simp: main_private_check_def Let_def split: sum.splits if_splits)

lemma retry_loop_no_exit:
  assumes c: "\<forall>k e. download_post E k = Some e \<longrightarrow> \<not> is_exit e"
  shows "fst (retry_loop E sn R b p a tot s) = Inl e \<Longrightarrow> \<not> is_exit e"
proof (induction "nat (R + 1 - int a)" arbitrary: a s)
  case 0
  then have "\<not> int a \<le> R" by simp
  with 0(2) show ?case by (simp add: retry_loop_done)
next
  case (Suc n)
  have le: "int a \<le> R" using Suc.hyps(2) by simp
  show ?case
  proof (cases "download_post E (n_download s)")
    case None
    with le Suc.prems show ?thesis by (simp add: retry_loop_ok)
  next
    case (Some e1)
    with c have n1: "\<not> is_exit e1" by blast
    show ?thesis
    proof (cases "class_of e1 = KeyboardInterrupt")
      case True
      with le Some Suc.prems show ?thesis by (simp add: retry_loop_interrupt)
    next
      case False
      with n1 have ex: "is_Exception e1" using not_exit_cases by blast
      let ?w = "b ^ Suc a + (0.5 + 1.5 * random E (n_random s))"
      let ?s1 = "(emit (DownloadPost p sn) s)\<lparr>n_download := Suc (n_download s), n_random := Suc (n_random s)\<rparr>"
      note eq = retry_loop_fail [OF le Some ex, of sn b p tot]
      obtain r3 s3 where t: "time_sleep E ?w ?s1 = (r3, s3)" by (cases "time_sleep E ?w ?s1")
      show ?thesis
      proof (cases r3)
        case (Inl e3)
        with eq t Suc.prems have "e = e3" by simp
        with time_sleep_no_exit [of E ?w ?s1 e3] t Inl show ?thesis by simp
      next
        case (Inr u)
        with eq t Suc.prems have "fst (retry_loop E sn R b p (Suc a) tot s3) = Inl e" by simp
        with Suc.hyps(2) show ?thesis by (intro Suc.hyps(1)) simp_all
      qed
    qed
  qed
qed

lemma pacing_sleep_no_exit: "fst (pacing_sleep E mn mx s) = Inl e \<Longrightarrow> \<not> is_exit e"
  unfolding pacing_sleep_eq by (rule time_sleep_no_exit)

lemma posts_loop_no_exit:
  assumes c: "\<forall>k e. download_post E k = Some e \<longrightarrow> \<not> is_exit e"
  shows "\<forall>e. Inl e \<in> set posts \<longrightarrow> \<not> is_exit e \<Longrightarrow>
     fst (posts_loop E sn mn mx R b posts tot s) = Inl e \<Longrightarrow> \<not> is_exit e"
proof (induction posts arbitrary: tot s)
  case Nil
  then show ?case by simp
next
  case (Cons x rest)
  show ?case
  proof (cases x)
    case (Inl e1)
    with Cons.prems show ?thesis by auto
  next
    case (Inr p)
    obtain r1 s1 where r1: "retry_loop E sn R b p 0 tot s = (r1, s1)"
      by (cases "retry_loop E sn R b p 0 tot s")
    show ?thesis
    proof (cases r1)
      case (Inl e1)
      with Cons.prems(2) Inr r1 have "e = e1" by simp
      with retry_loop_no_exit [OF c, of sn R b p 0 tot s e1] r1 Inl show ?thesis by simp
    next
      case fl: (Inr f)
      show ?thesis
      proof (cases f)
        case (Return t)
        with Cons.prems(2) Inr r1 fl show ?thesis by simp
      next
        case (Continue t)
        obtain r2 s2 where p2: "pacing_sleep E mn mx s1 = (r2, s2)"
          by (cases "pacing_sleep E mn mx s1")
        show ?thesis
        proof (cases r2)
          case (Inl e2)
          with Cons.prems(2) Inr r1 fl Continue p2 have "e = e2" by simp
          with pacing_sleep_no_exit [of E mn mx s1 e2] p2 Inl show ?thesis by simp
        next
          case u: (Inr u)
          with Cons.prems(2) Inr r1 fl Continue p2
          have "fst (posts_loop E sn mn mx R b rest t s2) = Inl e" by simp
          moreover from Cons.prems(1) have "\<forall>e. Inl e \<in> set rest \<longrightarrow> \<not> is_exit e" by simp
          ultimately show ?thesis using Cons.IH by blast
        qed
      qed
    qed
  qed
qed

lemma main_download_returns:
  assumes "no_foreign_exit E" and "from_username E t = Inr prof"
  shows "fst (main_download E prof s) = Inr ()"
proof -
  from assms have c: "\<forall>k e. download_post E k = Some e \<longrightarrow> \<not> is_exit e"
    and ps: "\<forall>e. Inl e \<in> set (get_posts prof) \<longrightarrow> \<not> is_exit e"
    and mk: "\<forall>d e. makedirs E d = Some e \<longrightarrow> \<not> is_exit e"
    unfolding no_foreign_exit_def by blast+
  obtain r1 s1 where d: "download_posts_with_delays E prof 4.0 9.0 3 2.0 s = (r1, s1)"
    by (cases "download_posts_with_delays E prof 4.0 9.0 3 2.0 s")
  show ?thesis
  proof (cases r1)
    case (Inr n)
    with d show ?thesis by (simp add: main_download_def)
  next
    case (Inl e)
    have "\<not> is_exit e"
    proof (cases "makedirs E (sanitize_filename (username prof))")
      case (Some e1)
      with d Inl have "e = e1" by (simp add: download_posts_with_delays_def Let_def)
      with mk Some show ?thesis by blast
    next
      case None
      with d Inl have "fst (posts_loop E (sanitize_filename (username prof)) 4.0 9.0 3 2.0
          (get_posts prof) 0 (emit (Makedirs (sanitize_filename (username prof))) s)) = Inl e"
        by (simp add: download_posts_with_delays_def Let_def)
      from posts_loop_no_exit [OF c ps this] show ?thesis .
    qed
    then have "class_of e = KeyboardInterrupt \<or> is_Exception e" by (rule not_exit_cases)
    with d Inl show ?thesis by (auto simp: main_download_def)
  qed
qed

lemma exit_status_one:
  "exit_status (Inl e) = 1 \<Longrightarrow> is_Exception e \<or> (is_exit e \<and> e = Exc (SystemExit 1) (str_of e))"
  by (cases e rule: is_Exception.cases) (auto simp: exit_status_def is_exit_def)

lemma main_start_dns_fails:
  "fst (check_dns E s) = Inr False \<Longrightarrow> fst (main_start E s) = Inl (sys_exit 1)"
  by (cases "check_dns E s") (simp add: main_start_def)

lemma main_start_empty:
  "check_dns E s = (Inr True, s1) \<Longrightarrow>
   fst (py_input E (ustr ''Enter the Instagram username to download posts from: '') s1) = Inr line \<Longrightarrow>
   strip line = [] \<Longrightarrow> fst (main_start E s) = Inl (sys_exit 1)"
  by (cases "py_input E (ustr ''Enter the Instagram username to download posts from: '') s1")
    (simp add: main_start_def)

lemma main_login_declined:
  "login_with_session E su True s = (Inl e, s2) \<Longrightarrow> class_of e = RuntimeError \<Longrightarrow>
   fst (py_input E (ustr ''Continue without login? (yes/no): '')
          (emit (Print ([10060] @ ustr '' Login/session error: '' @ str_of e)) s2)) = Inr answer \<Longrightarrow>
   lower (strip answer) \<noteq> ustr ''yes'' \<Longrightarrow> fst (main_login E su s) = Inl (sys_exit 1)"
  by (simp add: main_login_def Let_def py_input_def)

lemma main_resolve_fails:
  assumes "fst (time_sleep E (1.0 + (3.0 - 1.0) * random E (n_random s))
                    (s\<lparr>n_random := Suc (n_random s)\<rparr>)) = Inr ()"
    and "from_username E t = Inl e" and "is_Exception e"
  shows "fst (main_resolve E t s) = Inl (sys_exit 1)"
    and "class_of e = ProfileNotExistsException \<Longrightarrow>
         last (trace (snd (main_resolve E t s))) =
           Print ([10060] @ ustr '' The profile '' @ [39] @ t @ [39] @ ustr '' does not exist.'')"
  using assms
  by (cases "time_sleep E (1.0 + (3.0 - 1.0) * random E (n_random s)) (s\<lparr>n_random := Suc (n_random s)\<rparr>)";
      simp add: main_resolve_def random_uniform_def Let_def)+

lemma main_private_check_fails:
  "is_private prof = Inr True \<Longrightarrow> test_login E = Inr False \<Longrightarrow>
   fst (main_private_check E t prof s) = Inl (sys_exit 1)"
  by (simp add: main_private_check_def Let_def)

lemma main_raises_start: "fst (main_start E s) = Inl e \<Longrightarrow> main E s = (Inl e, snd (main_start E s))"
  by (cases "main_start E s") (simp add: main_def)

lemma main_raises_login:
  "main_start E s = (Inr (t, su), s1) \<Longrightarrow> fst (main_login E su s1) = Inl e \<Longrightarrow>
   main E s = (Inl e, snd (main_login E su s1))"
  by (cases "main_login E su s1") (simp add: main_def)

lemma main_raises_resolve:
  "main_start E s = (Inr (t, su), s1) \<Longrightarrow> main_login E su s1 = (Inr uu, s2) \<Longrightarrow>
   fst (main_resolve E t s2) = Inl e \<Longrightarrow> main E s = (Inl e, snd (main_resolve E t s2))"
  by (cases "main_resolve E t s2") (simp add: main_def)

lemma main_raises_check:
  "main_start E s = (Inr (t, su), s1) \<Longrightarrow> main_login E su s1 = (Inr uu, s2) \<Longrightarrow>
   main_resolve E t s2 = (Inr prof, s3) \<Longrightarrow> fst (main_private_check E t prof s3) = Inl e \<Longrightarrow>
   main E s = (Inl e, snd (main_private_check E t prof s3))"
  by (cases "main_private_check E t prof s3") (simp add: main_def main_tail_def)

lemma exit_one_condition_exits:
  assumes "exit_one_condition E s0"
  shows "fst (main E s0) = Inl (sys_exit 1)"
proof -
  let ?p1 = "ustr ''Enter the Instagram username to download posts from: ''"
  from assms consider
    (dns) "fst (check_dns E s0) = Inr False"
    | (empty) s1 line where "check_dns E s0 = (Inr True, s1)"
        "fst (py_input E ?p1 s1) = Inr line" "strip line = []"
    | (declined) t su s1 e s2 answer where "main_start E s0 = (Inr (t, su), s1)"
        "login_with_session E su True s1 = (Inl e, s2)" "class_of e = RuntimeError"
        "fst (py_input E (ustr ''Continue without login? (yes/no): '')
                    (emit (Print ([10060] @ ustr '' Login/session error: '' @ str_of e)) s2))
               = Inr answer"
        "lower (strip answer) \<noteq> ustr ''yes''"
    | (resolve) t su s1 used_user s2 e where "main_start E s0 = (Inr (t, su), s1)"
        "main_login E su s1 = (Inr used_user, s2)"
        "fst (time_sleep E (1.0 + (3.0 - 1.0) * random E (n_random s2))
                    (s2\<lparr>n_random := Suc (n_random s2)\<rparr>)) = Inr ()"
        "from_username E t = Inl e" "resolve_failure e"
    | (priv) t su s1 used_user s2 prof s3 where "main_start E s0 = (Inr (t, su), s1)"
        "main_login E su s1 = (Inr used_user, s2)" "main_resolve E t s2 = (Inr prof, s3)"
        "is_private prof = Inr True" "test_login E = Inr False"
    unfolding exit_one_condition_def by (elim disjE exE conjE) blast+
  then show ?thesis
  proof cases
    case dns
    from main_raises_start [OF main_start_dns_fails [OF dns]] show ?thesis by simp
  next
    case empty
    from main_raises_start [OF main_start_empty [OF empty]] show ?thesis by simp
  next
    case declined
    from main_raises_login [OF declined(1) main_login_declined [OF declined(2-5)]]
    show ?thesis by simp
  next
    case resolve
    from resolve(5) have "is_Exception e" by (simp add: resolve_failure_Exception)
    from main_raises_resolve [OF resolve(1,2) main_resolve_fails(1) [OF resolve(3,4) this]]
    show ?thesis by simp
  next
    case priv
    from main_raises_check [OF priv(1-3) main_private_check_fails [OF priv(4,5)]]
    show ?thesis by simp
  qed
qed

lemma main_exit_only:
  assumes c: "no_foreign_exit E" and r: "fst (main E s0) = Inl e" and x: "is_exit e"
  shows "exit_one_condition E s0"
proof -
  obtain r1 s1 where a: "main_start E s0 = (r1, s1)" by (cases "main_start E s0")
  show ?thesis
  proof (cases r1)
    case (Inl e1)
    with a r have "fst (main_start E s0) = Inl e" by (simp add: main_def)
    from main_start_exit [OF c this x] show ?thesis
      unfolding exit_one_condition_def by blast
  next
    case (Inr ts)
    obtain t su where ts: "ts = (t, su)" by (cases ts)
    with a Inr have a': "main_start E s0 = (Inr (t, su), s1)" by simp
    obtain r2 s2 where l: "main_login E su s1 = (r2, s2)" by (cases "main_login E su s1")
    show ?thesis
    proof (cases r2)
      case (Inl e2)
      with a' l r have "fst (main_login E su s1) = Inl e" by (simp add: main_def)
      from main_login_exit [OF c this x] a' show ?thesis
        unfolding exit_one_condition_def by blast
    next
      case uu: (Inr uu)
      with l have l': "main_login E su s1 = (Inr uu, s2)" by simp
      obtain r3 s3 where v: "main_resolve E t s2 = (r3, s3)" by (cases "main_resolve E t s2")
      show ?thesis
      proof (cases r3)
        case (Inl e3)
        with a' l' v r have "fst (main_resolve E t s2) = Inl e" by (simp add: main_def)
        from main_resolve_exit [OF c this x] a' l' show ?thesis
          unfolding exit_one_condition_def by blast
      next
        case (Inr prof)
        with v have v': "main_resolve E t s2 = (Inr prof, s3)" by simp
        then have f: "from_username E t = Inr prof" by (rule main_resolve_profile)
        obtain r4 s4 where k: "main_private_check E t prof s3 = (r4, s4)"
          by (cases "main_private_check E t prof s3")
        show ?thesis
        proof (cases r4)
          case (Inl e4)
          with a' l' v' k r have k': "fst (main_private_check E t prof s3) = Inl e"
            by (simp add: main_def main_tail_def)
          from c f have "\<forall>e. is_private prof = Inl e \<longrightarrow> \<not> is_exit e"
            "\<forall>e. test_login E = Inl e \<longrightarrow> \<not> is_exit e"
            unfolding no_foreign_exit_def by blast+
          from main_private_check_exit [OF this k' x] a' l' v' show ?thesis
            unfolding exit_one_condition_def by blast
        next
          case u: (Inr u)
          with a' l' v' k have "main E s0 = main_download E prof s4"
            by (simp add: main_def main_tail_def)
          with main_download_returns [OF c f, of s4] r show ?thesis by simp
        qed
      qed
    qed
  qed
qed

text \<open>
  Claim C9, as amended.  Each of the listed conditions (failed network check, empty
  target handle, login failure that the user declines to continue from, the four kinds
  of failed profile lookup, private profile without a valid session) ends the process
  with code 1.  When the environment raises no \<open>SystemExit\<close> of its own, status 1
  arises in no other way than by one of them or by an \<open>Exception\<close> that leaves \<open>main\<close>
  uncaught.  When the download phase is reached and the downloader returns, is
  interrupted by the user or raises an \<open>Exception\<close>, the code is 0.  When the lookup
  raises "does not exist", the last thing printed is the message with the handle
  between apostrophes.
\<close>

theorem main_exit_codes:
  "(exit_one_condition E s0 \<longrightarrow> exit_status (fst (main E s0)) = 1)
   \<and> (no_foreign_exit E \<and> exit_status (fst (main E s0)) = 1 \<longrightarrow>
        exit_one_condition E s0 \<or> (\<exists>e. fst (main E s0) = Inl e \<and> is_Exception e))
   \<and> (\<forall>t su s1 used_user s2 prof s3 s4 r s5.
        main_start E s0 = (Inr (t, su), s1) \<and> main_login E su s1 = (Inr used_user, s2)
        \<and> main_resolve E t s2 = (Inr prof, s3)
        \<and> main_private_check E t prof s3 = (Inr (), s4)
        \<and> download_posts_with_delays E prof 4.0 9.0 3 2.0 s4 = (r, s5)
        \<and> (case r of Inr n \<Rightarrow> True | Inl e \<Rightarrow> class_of e = KeyboardInterrupt \<or> is_Exception e)
        \<longrightarrow> exit_status (fst (main E s0)) = 0)
   \<and> (\<forall>t su s1 used_user s2 e.
        main_start E s0 = (Inr (t, su), s1) \<and> main_login E su s1 = (Inr used_user, s2)
        \<and> fst (time_sleep E (1.0 + (3.0 - 1.0) * random E (n_random s2))
                 (s2\<lparr>n_random := Suc (n_random s2)\<rparr>)) = Inr ()
        \<and> from_username E t = Inl e \<and> class_of e = ProfileNotExistsException
        \<longrightarrow> exit_status (fst (main E s0)) = 1
            \<and> last (trace (snd (main E s0))) =
                Print ([10060] @ ustr '' The profile '' @ [39] @ t @ [39] @ ustr '' does not exist.''))"
proof (intro conjI allI impI)
  assume "exit_one_condition E s0"
  from exit_one_condition_exits [OF this] show "exit_status (fst (main E s0)) = 1" by simp
next
  assume a: "no_foreign_exit E \<and> exit_status (fst (main E s0)) = 1"
  show "exit_one_condition E s0 \<or> (\<exists>e. fst (main E s0) = Inl e \<and> is_Exception e)"
  proof (cases "fst (main E s0)")
    case (Inr u)
    with a show ?thesis by simp
  next
    case (Inl e)
    with a exit_status_one [of e] have "is_Exception e \<or> is_exit e" by auto
    then show ?thesis
    proof
      assume "is_Exception e"
      with Inl show ?thesis by blast
    next
      assume "is_exit e"
      with a Inl main_exit_only show ?thesis by blast
    qed
  qed
next
  fix t su s1 used_user s2 prof s3 s4 r s5
  assume a: "main_start E s0 = (Inr (t, su), s1) \<and> main_login E su s1 = (Inr used_user, s2)
        \<and> main_resolve E t s2 = (Inr prof, s3)
        \<and> main_private_check E t prof s3 = (Inr (), s4)
        \<and> download_posts_with_delays E prof 4.0 9.0 3 2.0 s4 = (r, s5)
        \<and> (case r of Inr n \<Rightarrow> True | Inl e \<Rightarrow> class_of e = KeyboardInterrupt \<or> is_Exception e)"
  then have "main E s0 = main_download E prof s4"
    by (simp add: main_def main_tail_def)
  moreover from a have "fst (main_download E prof s4) = Inr ()"
    by (auto simp: main_download_def split: sum.splits)
  ultimately show "exit_status (fst (main E s0)) = 0" by simp
next
  fix t su s1 used_user s2 e
  assume a: "main_start E s0 = (Inr (t, su), s1) \<and> main_login E su s1 = (Inr used_user, s2)
        \<and> fst (time_sleep E (1.0 + (3.0 - 1.0) * random E (n_random s2))
                 (s2\<lparr>n_random := Suc (n_random s2)\<rparr>)) = Inr ()
        \<and> from_username E t = Inl e \<and> class_of e = ProfileNotExistsException"
  then have ex: "is_Exception e" by (cases e rule: is_Exception.cases) simp_all
  from a have p: "fst (time_sleep E (1.0 + (3.0 - 1.0) * random E (n_random s2))
                 (s2\<lparr>n_random := Suc (n_random s2)\<rparr>)) = Inr ()"
    and f: "from_username E t = Inl e" and k: "class_of e = ProfileNotExistsException"
    by simp_all
  from a have m: "main E s0 = (Inl (sys_exit 1), snd (main_resolve E t s2))"
    using main_raises_resolve [OF _ _ main_resolve_fails(1) [OF p f ex]] by blast
  from m show "exit_status (fst (main E s0)) = 1" by simp
  from m main_resolve_fails(2) [OF p f ex k]
  show "last (trace (snd (main E s0))) =
      Print ([10060] @ ustr '' The profile '' @ [39] @ t @ [39] @ ustr '' does not exist.'')"
    by simp
qed

text \<open>
  The input ends at the first prompt: \<open>input\<close> raises \<open>EOFError\<close>, which nothing in
  \<open>main\<close> catches.  The process ends with status 1 although none of the listed
  conditions holds.
\<close>

theorem exit_one_on_end_of_input:
  "exit_status (fst (main eof_env init_state)) = 1
   \<and> fst (main eof_env init_state) = Inl (Exc EOFError (ustr ''EOF when reading a line''))
   \<and> \<not> exit_one_condition eof_env init_state"
proof -
  have d: "check_dns eof_env init_state = (Inr True, emit GetHostByName init_state)"
    by (simp add: check_dns_def env_simps Let_def)
  have i: "fst (py_input eof_env pr s) = Inl (Exc EOFError (ustr ''EOF when reading a line''))" for pr s
    by (simp add: eof_env_def quiet_env_def)
  have st: "stdin eof_env k = Inl (Exc EOFError (ustr ''EOF when reading a line''))" for k
    by (simp add: eof_env_def quiet_env_def)
  have s: "fst (main_start eof_env init_state) = Inl (Exc EOFError (ustr ''EOF when reading a line''))"
    by (simp add: main_start_def d py_input_def st)
  from main_raises_start [OF s]
  have m: "fst (main eof_env init_state) = Inl (Exc EOFError (ustr ''EOF when reading a line''))"
    by simp
  have n: "\<not> exit_one_condition eof_env init_state"
    unfolding exit_one_condition_def using s by (auto simp: d st)
  from m n show ?thesis by (simp add: exit_status_def)
qed

theorem login_with_session_paths_witness:
  "login_with_session quiet_env (Some (ustr ''bob'')) True init_state =
     (Inr (ustr ''bob''),
      \<lparr>n_input = 0, n_download = 0, n_random = 0, n_sleep = 0,
       trace = [LoadSession (ustr ''bob''), Print ([9989] @ ustr '' Loaded session from file.'')]\<rparr>)
   \<and> fst (login_with_session no_session_env (Some (ustr ''bob'')) False init_state) =
       Inl (Exc RuntimeError (ustr ''No session available and interactive login disabled.''))"
  using login_with_session_paths [where u = "ustr ''bob''" and E = quiet_env
      and allow_interactive = True and s = init_state]
    login_with_session_paths [where u = "ustr ''bob''" and E = no_session_env
      and allow_interactive = False and s = init_state]
  by (simp add: env_simps emit_def ustr_def)

theorem private_profile_check_witness:
  "exit_status (fst (main private_env init_state)) = 1
   \<and> n_download (snd (main private_env init_state)) = 0"
proof -
  let ?prof = "\<lparr>username = ustr ''alice'', is_private = Inr True, get_posts = [Inr 1]\<rparr>"
  have "fst (main_start private_env init_state) = Inr (ustr ''alice'', Some (ustr ''bob''))"
    by (simp add: main_start_def check_dns_def py_input_def env_simps emit_def strip_def
        lstrip_def rstrip_def isspace_def ustr_def Let_def)
  then have ms: "main_start private_env init_state =
      (Inr (ustr ''alice'', Some (ustr ''bob'')), snd (main_start private_env init_state))"
    by (metis prod.collapse)
  have "fst (main_login private_env (Some (ustr ''bob'')) s) = Inr (Some (ustr ''bob''))" for s
    by (simp add: main_login_def login_with_session_def try_load_session_def env_simps
        ustr_def Let_def)
  then have ml: "main_login private_env (Some (ustr ''bob'')) s =
      (Inr (Some (ustr ''bob'')), snd (main_login private_env (Some (ustr ''bob'')) s))" for s
    by (metis prod.collapse)
  have "fst (main_resolve private_env (ustr ''alice'') s) = Inr ?prof" for s
    by (simp add: main_resolve_def random_uniform_def time_sleep_def env_simps Let_def)
  then have mr: "main_resolve private_env (ustr ''alice'') s =
      (Inr ?prof, snd (main_resolve private_env (ustr ''alice'') s))" for s
    by (metis prod.collapse)
  from private_profile_check [OF ms ml mr]
  show ?thesis by (simp add: env_simps)
qed

theorem main_exit_codes_witness:
  "exit_status (fst (main missing_env init_state)) = 1
   \<and> last (trace (snd (main missing_env init_state))) =
       Print ([10060] @ ustr '' The profile '' @ [39] @ ustr ''alice'' @ [39]
              @ ustr '' does not exist.'')"
proof -
  let ?s1 = "\<lparr>n_input = 2, n_download = 0, n_random = 0, n_sleep = 0,
      trace = [GetHostByName,
        Input (ustr ''Enter the Instagram username to download posts from: ''),
        Input (ustr ''If you have a saved Instaloader session username, enter it (or press Enter to skip): '')]\<rparr>"
  have ms: "main_start missing_env init_state = (Inr (ustr ''alice'', None), ?s1)"
    by (simp add: main_start_def check_dns_def py_input_def env_simps emit_def strip_def
        lstrip_def rstrip_def isspace_def ustr_def Let_def)
  have "fst (main_login missing_env None ?s1) = Inr (Some [])"
    by (simp add: main_login_def login_with_session_def try_load_session_def
        interactive_login_def get_credentials_def py_input_def random_uniform_def time_sleep_def
        env_simps emit_def strip_def lstrip_def rstrip_def Let_def)
  then have ml: "main_login missing_env None ?s1 =
      (Inr (Some []), snd (main_login missing_env None ?s1))"
    by (metis prod.collapse)
  have p: "fst (time_sleep missing_env (1.0 + (3.0 - 1.0) * random missing_env (n_random s))
                 (s\<lparr>n_random := Suc (n_random s)\<rparr>)) = Inr ()" for s
    by (simp add: time_sleep_def env_simps Let_def)
  have f: "from_username missing_env (ustr ''alice'') = Inl (Exc ProfileNotExistsException [])"
    by (simp add: env_simps)
  have k: "class_of (Exc ProfileNotExistsException []) = ProfileNotExistsException"
    by simp
  note c = main_exit_codes [of missing_env init_state, THEN conjunct2, THEN conjunct2,
      THEN conjunct2, rule_format]
  from c [OF conjI [OF ms conjI [OF ml conjI [OF p conjI [OF f k]]]]]
  show ?thesis .
qed

end
